theory Spec2Isabelle
  imports Main "HOL-Library.Sublist" "HOL-Library.Word"
begin

text \<open>
  A shallow embedding of the QR code generator and tracker: the sliding-window rate
  limiter, the input validator, the encrypted local vault, the tiered record store and
  the redirect resolver. Part I holds the definitions, each translated from the
  JavaScript function of the same name; Part II holds the properties.

  What the browser provides (the clock, random bytes, Base64, UTF-8, JSON, Web Crypto,
  the URL parser, the user's answer to a confirmation dialog) is an argument of the
  model. JavaScript strings are modelled as \<^typ>\<open>string\<close>; case folding is the
  ASCII one.
\<close>

chapter \<open>Part I: the program\<close>

section \<open>Strings\<close>

definition upper_letters :: string where
  "upper_letters = ''ABCDEFGHIJKLMNOPQRSTUVWXYZ''"

definition lower_letters :: string where
  "lower_letters = ''abcdefghijklmnopqrstuvwxyz''"

definition lowerChar :: "char \<Rightarrow> char" where
  "lowerChar c = (case map_of (zip upper_letters lower_letters) c of None \<Rightarrow> c | Some d \<Rightarrow> d)"

text \<open>\<open>s.toLowerCase()\<close>\<close>

definition toLowerCase :: "string \<Rightarrow> string" where
  "toLowerCase s = map lowerChar s"

text \<open>\<open>s.includes(p)\<close>: \<open>p\<close> occurs in \<open>s\<close> as a contiguous substring.\<close>

definition includes_str :: "string \<Rightarrow> string \<Rightarrow> bool" where
  "includes_str s p = sublist p s"

text \<open>\<open>s.endsWith(p)\<close>\<close>

definition endsWith :: "string \<Rightarrow> string \<Rightarrow> bool" where
  "endsWith s p = suffix p s"

text \<open>
  The white space \<open>trim\<close> removes, as far as it lies in the 8-bit range: TAB, LF, VT,
  FF, CR, SP and NBSP.
\<close>

definition isWhiteSpace :: "char \<Rightarrow> bool" where
  "isWhiteSpace c = (of_char c \<in> {9, 10, 11, 12, 13, 32, 160 :: nat})"

definition trim :: "string \<Rightarrow> string" where
  "trim s = rev (dropWhile isWhiteSpace (rev (dropWhile isWhiteSpace s)))"

text \<open>Truthiness of a string-or-null value: \<open>null\<close> and the empty string are falsy.\<close>

fun truthy :: "string option \<Rightarrow> bool" where
  "truthy None = False"
| "truthy (Some s) = (s \<noteq> [])"

section \<open>Rate limiter (class RateLimiter)\<close>

text \<open>
  The limiter keeps, per caller identity, the list of admission timestamps
  (\<open>Date.now()\<close>, integral milliseconds). The clock reading is an argument of
  the model; the \<open>Map\<close> of the source is a partial function.
\<close>

type_synonym requests = "string \<rightharpoonup> int list"

definition maxRequests :: nat where
  "maxRequests = 10"

definition timeWindow :: int where
  "timeWindow = 60000"

text \<open>\<open>this.requests.get(userId) || []\<close>: an array is always truthy.\<close>

definition userRequests :: "requests \<Rightarrow> string \<Rightarrow> int list" where
  "userRequests reqs userId = (case reqs userId of None \<Rightarrow> [] | Some l \<Rightarrow> l)"

text \<open>\<open>userRequests.filter(time => now - time < this.timeWindow)\<close>\<close>

definition recentRequests :: "int \<Rightarrow> int list \<Rightarrow> int list" where
  "recentRequests now l = filter (\<lambda>time. now - time < timeWindow) l"

definition canMakeRequest :: "int \<Rightarrow> string \<Rightarrow> requests \<Rightarrow> bool \<times> requests" where
  "canMakeRequest now userId reqs =
     (let recent = recentRequests now (userRequests reqs userId)
      in if length recent \<ge> maxRequests then (False, reqs)
         else (True, reqs(userId \<mapsto> recent @ [now])))"

definition getRemainingRequests :: "int \<Rightarrow> string \<Rightarrow> requests \<Rightarrow> int" where
  "getRemainingRequests now userId reqs =
     max 0 (int maxRequests - int (length (recentRequests now (userRequests reqs userId))))"

text \<open>A run of successive \<open>canMakeRequest\<close> calls at the given clock readings.\<close>

fun calls :: "int list \<Rightarrow> string \<Rightarrow> requests \<Rightarrow> bool list \<times> requests" where
  "calls [] userId reqs = ([], reqs)"
| "calls (t # ts) userId reqs =
     (case canMakeRequest t userId reqs of
        (b, reqs') \<Rightarrow> (case calls ts userId reqs' of (bs, reqs'') \<Rightarrow> (b # bs, reqs'')))"

section \<open>Input validator (SecurityUtils.validateQRInput)\<close>

text \<open>The \<open>Error\<close> thrown, by its message.\<close>

datatype validation_error =
    EnterText           \<comment> \<open>Please enter some text or URL to generate QR code\<close>
  | TextTooLong         \<comment> \<open>Text content too long (max 4000 characters)\<close>
  | EnterName           \<comment> \<open>Please enter a name/reference for this QR code\<close>
  | NameTooLong         \<comment> \<open>Name too long (max 100 characters)\<close>
  | InvalidContentText  \<comment> \<open>Invalid content detected in text\<close>
  | InvalidContentName  \<comment> \<open>Invalid content detected in name\<close>

text \<open>
  \<open>/<tag[^>]*>/i.test(s)\<close>: somewhere in \<open>s\<close> stands \<open><tag\<close> in any letter case,
  and a \<open>>\<close> follows it, at any distance.
\<close>

definition tagPattern :: "string \<Rightarrow> string \<Rightarrow> bool" where
  "tagPattern tag s =
     list_ex (\<lambda>t. prefix (CHR ''<'' # tag) t \<and> CHR ''>'' \<in> set (drop (Suc (length tag)) t))
       (suffixes (toLowerCase s))"

text \<open>\<open>/word/i.test(s)\<close> for a literal word.\<close>

definition ciPattern :: "string \<Rightarrow> string \<Rightarrow> bool" where
  "ciPattern word s = includes_str (toLowerCase s) word"

definition maliciousPatterns :: "(string \<Rightarrow> bool) list" where
  "maliciousPatterns =
     [tagPattern ''script'', ciPattern ''javascript:'', ciPattern ''data:text/html'',
      ciPattern ''vbscript:'', tagPattern ''iframe'', tagPattern ''object'',
      tagPattern ''embed'']"

text \<open>\<open>maliciousPatterns.some(pattern => pattern.test(s))\<close>\<close>

definition malicious :: "string \<Rightarrow> bool" where
  "malicious s = list_ex (\<lambda>pattern. pattern s) maliciousPatterns"

definition validateQRInput :: "string \<Rightarrow> string \<Rightarrow> validation_error + bool" where
  "validateQRInput txt name =
     (if txt = [] \<or> length (trim txt) = 0 then Inl EnterText
      else if length txt > 4000 then Inl TextTooLong
      else if name = [] \<or> length (trim name) = 0 then Inl EnterName
      else if length name > 100 then Inl NameTooLong
      else if malicious txt then Inl InvalidContentText
      else if malicious name then Inl InvalidContentName
      else Inr True)"

text \<open>The two rejections that report injected content.\<close>

definition security_error :: "validation_error \<Rightarrow> bool" where
  "security_error e = (e = InvalidContentText \<or> e = InvalidContentName)"

section \<open>URL classification and dispatch (QRRedirectManager)\<close>

text \<open>
  \<open>new URL(s)\<close> is the browser's parser: it yields a URL object, of which the code
  reads \<open>protocol\<close> and \<open>hostname\<close>, or throws (\<open>None\<close>).
\<close>

record url =
  protocol :: string
  hostname :: string

type_synonym url_parser = "string \<Rightarrow> url option"

definition dangerousPatterns :: "string list" where
  "dangerousPatterns = [''javascript:'', ''data:'', ''vbscript:'', ''file:'', ''ftp:'']"

definition isValidURL :: "url_parser \<Rightarrow> string \<Rightarrow> bool" where
  "isValidURL newURL str =
     (case newURL str of
        Some u \<Rightarrow>
          if protocol u \<notin> set [''http:'', ''https:''] then False
          else if list_ex (\<lambda>pattern. includes_str (toLowerCase str) pattern) dangerousPatterns
            then False
          else True
      | None \<Rightarrow>
          if includes_str str ''.com'' \<or> includes_str str ''.org'' \<or>
             includes_str str ''.net'' \<or> includes_str str ''www.''
          then (case newURL (''https://'' @ str) of Some _ \<Rightarrow> True | None \<Rightarrow> False)
          else False)"

definition allowedDomains :: "string list" where
  "allowedDomains =
     [''meet.google.com'', ''zoom.us'', ''teams.microsoft.com'', ''webex.com'',
      ''gotomeeting.com'', ''youtube.com'', ''www.youtube.com'', ''docs.google.com'',
      ''drive.google.com'']"

definition isWhitelistedDomain :: "url_parser \<Rightarrow> string \<Rightarrow> bool" where
  "isWhitelistedDomain newURL u =
     (case newURL u of
        Some urlObj \<Rightarrow>
          (let host = toLowerCase (hostname urlObj)
           in list_ex (\<lambda>domain. host = domain \<or> endsWith host (''.'' @ domain)) allowedDomains)
      | None \<Rightarrow> False)"

text \<open>What the page does, in order: the dialog it opens and where it ends.\<close>

datatype event =
    Confirm string           \<comment> \<open>\<open>confirm(...)\<close> about the given destination\<close>
  | Navigate string          \<comment> \<open>\<open>window.location.href = ...\<close>\<close>
  | ShowTextContent string   \<comment> \<open>\<open>this.showTextContent(...)\<close>\<close>
  | ShowError string         \<comment> \<open>\<open>this.showError(...)\<close>\<close>

text \<open>\<open>confirmed\<close> is the user's answer, should the dialog be opened.\<close>

definition redirectToOriginal :: "url_parser \<Rightarrow> bool \<Rightarrow> string \<Rightarrow> event list" where
  "redirectToOriginal newURL confirmed originalText =
     (if isValidURL newURL originalText then
        (if isWhitelistedDomain newURL originalText then [Navigate originalText]
         else if confirmed then [Confirm originalText, Navigate originalText]
         else [Confirm originalText, ShowTextContent originalText])
      else [ShowTextContent originalText])"

text \<open>
  A small parser standing in for \<open>new URL\<close> where the model is evaluated on plain
  \<open>http(s)://host/path\<close> addresses: the scheme, then the host up to the first of
  \<open>/ ? # :\<close>, in lower case. Anything else does not parse.
\<close>

definition plainURL :: url_parser where
  "plainURL s =
     (if prefix ''https://'' s \<and> length s > 8 then
        Some \<lparr>protocol = ''https:'',
              hostname = toLowerCase (takeWhile (\<lambda>c. c \<notin> set ''/?#:'') (drop 8 s))\<rparr>
      else if prefix ''http://'' s \<and> length s > 7 then
        Some \<lparr>protocol = ''http:'',
              hostname = toLowerCase (takeWhile (\<lambda>c. c \<notin> set ''/?#:'') (drop 7 s))\<rparr>
      else None)"

text \<open>
  The classification in the words of the specification: a string is navigable when it
  parses with scheme \<open>http\<close> or \<open>https\<close> and holds no blocked scheme in any letter
  case, or when it does not parse, holds one of the common domain fragments, and parses
  once \<open>https://\<close> is put in front.
\<close>

definition navigable :: "url_parser \<Rightarrow> string \<Rightarrow> bool" where
  "navigable newURL s =
     ((\<exists>u. newURL s = Some u \<and> (protocol u = ''http:'' \<or> protocol u = ''https:'') \<and>
           \<not> (\<exists>p \<in> set [''javascript:'', ''data:'', ''vbscript:'', ''file:'', ''ftp:''].
                 includes_str (toLowerCase s) p)) \<or>
      (newURL s = None \<and>
       (\<exists>p \<in> set [''.com'', ''.org'', ''.net'', ''www.'']. includes_str s p) \<and>
       (\<exists>u. newURL (''https://'' @ s) = Some u)))"


text \<open>
  The blacklist in the words of the specification: in some letter case, the field holds
  a script, iframe, object or embed tag (the tag's opening and, further on, a closing
  \<open>>\<close>), or one of the schemes \<open>javascript:\<close>, \<open>data:text/html\<close>, \<open>vbscript:\<close>.
\<close>

definition blacklisted :: "string \<Rightarrow> bool" where
  "blacklisted s =
     ((\<exists>tag \<in> set [''script'', ''iframe'', ''object'', ''embed''].
         \<exists>a b c. toLowerCase s = a @ ''<'' @ tag @ b @ ''>'' @ c) \<or>
      (\<exists>w \<in> set [''javascript:'', ''data:text/html'', ''vbscript:''].
         \<exists>a c. toLowerCase s = a @ w @ c))"

section \<open>Crypto vault (SecurityUtils.CryptoManager)\<close>

type_synonym bytes = "8 word list"

text \<open>\<open>localStorage\<close>: string slots; \<open>getItem\<close> of a missing slot is \<open>null\<close>.\<close>

type_synonym storage = "string \<rightharpoonup> string"

text \<open>
  A \<open>CryptoKey\<close>: its raw key material and whether it may be exported. The code
  generates the device key extractable and re-imports it non-extractable.
\<close>

datatype cryptokey = CryptoKey (raw: bytes) (extractable: bool)

text \<open>
  The platform functions the vault calls, for stored values of type \<open>'v\<close>:
  \<open>JSON.stringify\<close> and \<open>JSON.parse\<close>, \<open>TextEncoder.encode\<close> and
  \<open>TextDecoder.decode\<close>, \<open>btoa(String.fromCharCode(...bytes))\<close> and its inverse
  \<open>new Uint8Array(atob(s).split('').map(c => c.charCodeAt(0)))\<close>, and AES-GCM
  \<open>encrypt\<close> and \<open>decrypt\<close> under a key and a nonce. \<open>None\<close> is a thrown exception.
  \<open>max_arguments\<close> is the engine's limit on the number of arguments of one call:
  the spread \<open>String.fromCharCode(...bytes)\<close> of more bytes than that throws a
  \<open>RangeError\<close>. Writes to \<open>localStorage\<close> are taken to stay within its quota.
\<close>

record 'v host =
  json_stringify :: "'v \<Rightarrow> string"
  json_parse :: "string \<Rightarrow> 'v option"
  text_encode :: "string \<Rightarrow> bytes"
  text_decode :: "bytes \<Rightarrow> string"
  btoa_bytes :: "bytes \<Rightarrow> string"
  atob_bytes :: "string \<Rightarrow> bytes option"
  encrypt :: "cryptokey \<Rightarrow> bytes \<Rightarrow> bytes \<Rightarrow> bytes option"
  decrypt :: "cryptokey \<Rightarrow> bytes \<Rightarrow> bytes \<Rightarrow> bytes option"
  max_arguments :: nat

text \<open>\<open>btoa(String.fromCharCode(...bytes))\<close>\<close>

definition spread_btoa :: "'v host \<Rightarrow> bytes \<Rightarrow> string option" where
  "spread_btoa h bs = (if length bs > max_arguments h then None else Some (btoa_bytes h bs))"

text \<open>
  What the platform draws during one vault operation: the raw material of a freshly
  generated key (\<open>None\<close> when \<open>crypto.subtle.generateKey\<close> throws, as it does where
  Web Crypto is not available) and the 12 random bytes of the nonce.
\<close>

record entropy =
  generateKey :: "bytes option"
  getRandomValues :: bytes

definition key_slot :: string where
  "key_slot = ''app_crypto_key_v2''"

definition encrypted_slot :: "string \<Rightarrow> string" where
  "encrypted_slot key = ''encrypted_'' @ key"

text \<open>\<open>importKey('raw', ...)\<close> accepts AES key material of 128, 192 or 256 bits.\<close>

definition importKey :: "bytes \<Rightarrow> cryptokey option" where
  "importKey keyBuffer =
     (if length keyBuffer \<in> {16, 24, 32} then Some (CryptoKey keyBuffer False) else None)"

text \<open>
  \<open>getOrCreateKey\<close> returns the key, or throws (\<open>None\<close>), and the storage as it has
  left it.
\<close>

definition getOrCreateKey :: "'v host \<Rightarrow> entropy \<Rightarrow> storage \<Rightarrow> cryptokey option \<times> storage" where
  "getOrCreateKey h ent ls =
     (if \<not> truthy (ls key_slot) then
        (case generateKey ent of
           None \<Rightarrow> (None, ls)
         | Some exportedKey \<Rightarrow>
             (case spread_btoa h exportedKey of
                None \<Rightarrow> (None, ls)
              | Some keyData \<Rightarrow>
                  (Some (CryptoKey exportedKey True), ls(key_slot \<mapsto> keyData))))
      else
        (case ls key_slot of
           None \<Rightarrow> (None, ls)
         | Some keyData \<Rightarrow>
             (case atob_bytes h keyData of
                None \<Rightarrow> (None, ls)
              | Some keyBuffer \<Rightarrow> (importKey keyBuffer, ls))))"

text \<open>
  \<open>setItem\<close>: encrypt and store under \<open>encrypted_<key>\<close>; when anything in that throws,
  store the plain serialization under \<open>key\<close> itself. The storage is returned.
\<close>

definition setItem :: "'v host \<Rightarrow> entropy \<Rightarrow> string \<Rightarrow> 'v \<Rightarrow> storage \<Rightarrow> storage" where
  "setItem h ent key v ls =
     (case getOrCreateKey h ent ls of
        (None, ls1) \<Rightarrow> ls1(key \<mapsto> json_stringify h v)
      | (Some cryptoKey, ls1) \<Rightarrow>
          (let iv = getRandomValues ent;
               encodedData = text_encode h (json_stringify h v)
           in case encrypt h cryptoKey iv encodedData of
                None \<Rightarrow> ls1(key \<mapsto> json_stringify h v)
              | Some encryptedData \<Rightarrow>
                  (case spread_btoa h (iv @ encryptedData) of
                     None \<Rightarrow> ls1(key \<mapsto> json_stringify h v)
                   | Some encrypted \<Rightarrow> ls1(encrypted_slot key \<mapsto> encrypted))))"

text \<open>
  \<open>getItem\<close>: the encrypted slot first; failing that, a legacy plain slot, which is
  migrated (written through \<open>setItem\<close>, then removed). Every exception ends in \<open>null\<close>
  (\<open>None\<close>), with the storage as it stood when the exception was thrown.
\<close>

definition getItem :: "'v host \<Rightarrow> entropy \<Rightarrow> string \<Rightarrow> storage \<Rightarrow> 'v option \<times> storage" where
  "getItem h ent key ls =
     (if truthy (ls (encrypted_slot key)) then
        (case ls (encrypted_slot key) of
           None \<Rightarrow> (None, ls)
         | Some encrypted \<Rightarrow>
             (case getOrCreateKey h ent ls of
                (None, ls1) \<Rightarrow> (None, ls1)
              | (Some cryptoKey, ls1) \<Rightarrow>
                  (case atob_bytes h encrypted of
                     None \<Rightarrow> (None, ls1)
                   | Some combined \<Rightarrow>
                       (case decrypt h cryptoKey (take 12 combined) (drop 12 combined) of
                          None \<Rightarrow> (None, ls1)
                        | Some decryptedData \<Rightarrow>
                            (json_parse h (text_decode h decryptedData), ls1)))))
      else if truthy (ls key) then
        (case ls key of
           None \<Rightarrow> (None, ls)
         | Some regular \<Rightarrow>
             (case json_parse h regular of
                None \<Rightarrow> (None, ls)
              | Some v \<Rightarrow> (Some v, (setItem h ent key v ls)(key := None))))
      else (None, ls))"

text \<open>
  What is assumed of a working platform: Base64 decoding inverts Base64 encoding, which
  is empty only for no bytes; encryption under a 12-byte nonce succeeds, and decryption
  under a key of the same raw material and the same nonce gives the plain bytes back; a
  call may have at least 32 arguments.
\<close>

definition platform_ok :: "'v host \<Rightarrow> bool" where
  "platform_ok h =
     ((\<forall>b. atob_bytes h (btoa_bytes h b) = Some b) \<and>
      (\<forall>b. b \<noteq> [] \<longrightarrow> btoa_bytes h b \<noteq> []) \<and>
      (\<forall>k iv p. length iv = 12 \<longrightarrow> encrypt h k iv p \<noteq> None) \<and>
      (\<forall>k k' iv p c. encrypt h k iv p = Some c \<and> raw k' = raw k \<longrightarrow>
          decrypt h k' iv c = Some p) \<and>
      32 \<le> max_arguments h)"

text \<open>
  What is assumed of a value that can be serialized: parsing inverts its serialization,
  which is not empty, and decoding inverts the encoding of that text.
\<close>

definition codec_ok :: "'v host \<Rightarrow> 'v \<Rightarrow> bool" where
  "codec_ok h v =
     (json_parse h (json_stringify h v) = Some v \<and>
      json_stringify h v \<noteq> [] \<and>
      text_decode h (text_encode h (json_stringify h v)) = json_stringify h v)"

definition host_ok :: "'v host \<Rightarrow> bool" where
  "host_ok h = (platform_ok h \<and> (\<forall>v. codec_ok h v))"

text \<open>A key of one of the three AES sizes.\<close>

definition aes_key :: "cryptokey \<Rightarrow> bool" where
  "aes_key k = (length (raw k) \<in> {16, 24, 32})"

text \<open>
  The encrypted form of \<open>v\<close> under the nonce of \<open>ent\<close>, nonce in front, is within
  the engine's limit on arguments, whatever the AES key.
\<close>

definition fits :: "'v host \<Rightarrow> entropy \<Rightarrow> 'v \<Rightarrow> bool" where
  "fits h ent v =
     (\<forall>k c. aes_key k \<and>
        encrypt h k (getRandomValues ent) (text_encode h (json_stringify h v)) = Some c \<longrightarrow>
        length (getRandomValues ent @ c) \<le> max_arguments h)"

text \<open>It exceeds the limit, whatever the AES key.\<close>

definition too_large :: "'v host \<Rightarrow> entropy \<Rightarrow> 'v \<Rightarrow> bool" where
  "too_large h ent v =
     (\<forall>k c. aes_key k \<and>
        encrypt h k (getRandomValues ent) (text_encode h (json_stringify h v)) = Some c \<longrightarrow>
        max_arguments h < length (getRandomValues ent @ c))"

text \<open>A generated AES-256 key has 32 bytes, the nonce 12.\<close>

definition entropy_ok :: "entropy \<Rightarrow> bool" where
  "entropy_ok ent =
     (length (getRandomValues ent) = 12 \<and>
      (case generateKey ent of None \<Rightarrow> True | Some k \<Rightarrow> length k = 32))"

text \<open>
  An in-memory platform for strings as the stored values, on which the model can be
  evaluated: serialization puts the string in quotes, bytes and characters correspond
  one to one, and the cipher puts the key material in front of the plain bytes and
  checks it on decryption. Its limit of 64 arguments stands in for the some hundred
  thousand of a browser.
\<close>

definition demo_host :: "string host" where
  "demo_host =
     \<lparr>json_stringify = (\<lambda>v. ''\"'' @ v @ ''\"''),
      json_parse = (\<lambda>s. if 2 \<le> length s \<and> hd s = CHR ''\"'' \<and> last s = CHR ''\"''
                         then Some (butlast (tl s)) else None),
      text_encode = map (\<lambda>c. of_nat (of_char c)),
      text_decode = map (\<lambda>w. char_of (unat w)),
      btoa_bytes = map (\<lambda>w. char_of (unat w)),
      atob_bytes = (\<lambda>s. Some (map (\<lambda>c. of_nat (of_char c)) s)),
      encrypt = (\<lambda>k iv p. if length iv = 12 then Some (raw k @ p) else None),
      decrypt = (\<lambda>k iv c. if length iv = 12 \<and> take (length (raw k)) c = raw k
                           then Some (drop (length (raw k)) c) else None),
      max_arguments = 64\<rparr>"

section \<open>Tiered record store (FirebaseStatus, FirebaseManager)\<close>

record qr_record =
  rec_id :: string
  rec_name :: string
  originalText :: string
  logoPath :: "string option"
  scanCount :: int
  createdAt :: int
  lastScanned :: "int option"

text \<open>
  The object kept under \<open>qr-codes\<close>: records by identifier, in insertion order.
  \<open>obj[k] = v\<close> is \<open>assign\<close>. \<open>obj[k]\<close> is \<open>js_get\<close>: the object's own entry,
  or else, for the name of a member that every object inherits from
  \<open>Object.prototype\<close>, that member (a function, or the prototype itself: truthy, and
  no record), or else \<open>undefined\<close>.
\<close>

type_synonym qr_codes = "(string \<times> qr_record) list"

fun assign :: "string \<Rightarrow> qr_record \<Rightarrow> qr_codes \<Rightarrow> qr_codes" where
  "assign k v [] = [(k, v)]"
| "assign k v (p # ps) = (if fst p = k then (k, v) # ps else p # assign k v ps)"

definition object_members :: "string list" where
  "object_members =
     [''constructor'', ''__proto__'', ''hasOwnProperty'', ''isPrototypeOf'',
      ''propertyIsEnumerable'', ''toLocaleString'', ''toString'', ''valueOf'',
      ''__defineGetter__'', ''__defineSetter__'', ''__lookupGetter__'', ''__lookupSetter__'']"

datatype member = Own qr_record | Inherited | Undefined

definition js_get :: "qr_codes \<Rightarrow> string \<Rightarrow> member" where
  "js_get obj k =
     (case map_of obj k of
        Some v \<Rightarrow> Own v
      | None \<Rightarrow> if k \<in> set object_members then Inherited else Undefined)"

text \<open>
  The remote database as the page sees it: the children of \<open>qr-codes\<close>, and whether
  the server turns reads or writes down (a request turned down rejects its promise).
\<close>

record database =
  children :: qr_codes
  denies_read :: bool
  denies_write :: bool

datatype js_error =
    DatabaseError     \<comment> \<open>a rejected database request\<close>
  | ReferenceError    \<comment> \<open>\<open>SecurityUtils is not defined\<close>\<close>

text \<open>
  The page's global state: whether the Firebase SDK is loaded (\<open>typeof firebase !==
  'undefined'\<close>), \<open>window.database\<close>, the two flags of the connectivity monitor, which
  of the two helper scripts are loaded, \<open>localStorage\<close>, and the names of the members
  of \<open>Object.prototype\<close> on which the page has set scan fields.
\<close>

record page =
  firebase_loaded :: bool
  window_database :: "database option"
  firebaseInitialized :: bool
  databaseAvailable :: bool
  firebaseManager_loaded :: bool
  securityUtils_loaded :: bool
  localStorage :: storage
  mutated_builtins :: "string list"

text \<open>The handler of the \<open>.info/connected\<close> subscription.\<close>

definition on_connected :: "bool \<Rightarrow> page \<Rightarrow> page" where
  "on_connected snapshot_val w = w\<lparr>databaseAvailable := snapshot_val\<rparr>"

definition isAvailable :: "page \<Rightarrow> bool" where
  "isAvailable w = (firebaseInitialized w \<and> databaseAvailable w)"

definition getStatus :: "page \<Rightarrow> string" where
  "getStatus w =
     (if \<not> firebaseInitialized w then ''offline''
      else if \<not> databaseAvailable w then ''disconnected''
      else ''connected'')"

text \<open>
  The test every operation of \<open>FirebaseManager\<close> makes:
  \<open>typeof firebase !== 'undefined' && window.database\<close>.
\<close>

definition uses_remote :: "page \<Rightarrow> bool" where
  "uses_remote w = (firebase_loaded w \<and> window_database w \<noteq> None)"

text \<open>\<open>await SecurityUtils.CryptoManager.getItem('qr-codes') || {}\<close>\<close>

definition or_empty :: "qr_codes option \<Rightarrow> qr_codes" where
  "or_empty r = (case r of None \<Rightarrow> [] | Some localQRs \<Rightarrow> localQRs)"

text \<open>
  \<open>createQRCode\<close>. The generated identifier, the local clock reading and the server's
  time stamp are arguments. The result is the thrown error, or the identifier and the
  page's state.
\<close>

definition createQRCode ::
  "qr_codes host \<Rightarrow> entropy \<Rightarrow> entropy \<Rightarrow> int \<Rightarrow> int \<Rightarrow> string \<Rightarrow>
   string \<Rightarrow> string \<Rightarrow> string option \<Rightarrow> page \<Rightarrow> js_error + (string \<times> page)" where
  "createQRCode h ent1 ent2 now server_time qrId original name logo w =
     (let qrData = \<lparr>rec_id = qrId, rec_name = name, originalText = original, logoPath = logo,
                     scanCount = 0, createdAt = now, lastScanned = None\<rparr>
      in if uses_remote w then
           (case window_database w of
              None \<Rightarrow> Inl DatabaseError
            | Some db \<Rightarrow>
                if denies_write db then Inl DatabaseError
                else Inr (qrId,
                  w\<lparr>window_database :=
                      Some (db\<lparr>children :=
                        assign qrId (qrData\<lparr>createdAt := server_time\<rparr>) (children db)\<rparr>)\<rparr>))
         else if \<not> securityUtils_loaded w then Inl ReferenceError
         else
           (case getItem h ent1 ''qr-codes'' (localStorage w) of
              (r, ls1) \<Rightarrow>
                Inr (qrId,
                  w\<lparr>localStorage :=
                      setItem h ent2 ''qr-codes'' (assign qrId qrData (or_empty r)) ls1\<rparr>)))"

text \<open>
  \<open>getQRCode\<close>, for identifiers as \<open>generateUniqueId\<close> makes them: the lookup on the
  local tier is the one among the object's own entries.
\<close>

definition getQRCode ::
  "qr_codes host \<Rightarrow> entropy \<Rightarrow> string \<Rightarrow> page \<Rightarrow> js_error + (qr_record option \<times> page)" where
  "getQRCode h ent qrId w =
     (if uses_remote w then
        (case window_database w of
           None \<Rightarrow> Inl DatabaseError
         | Some db \<Rightarrow>
             if denies_read db then Inl DatabaseError
             else Inr (map_of (children db) qrId, w))
      else if \<not> securityUtils_loaded w then Inl ReferenceError
      else
        (case getItem h ent ''qr-codes'' (localStorage w) of
           (r, ls1) \<Rightarrow> Inr (map_of (or_empty r) qrId, w\<lparr>localStorage := ls1\<rparr>)))"

text \<open>
  \<open>(d.scanCount || 0) + 1\<close> and the new \<open>lastScanned\<close>. On the local tier, where
  the lookup finds an inherited member instead of a record, the two fields are set on
  that member and the unchanged object is written back.
\<close>

definition scanned :: "int \<Rightarrow> qr_record \<Rightarrow> qr_record" where
  "scanned time d =
     d\<lparr>scanCount := (if scanCount d = 0 then 0 else scanCount d) + 1,
       lastScanned := Some time\<rparr>"

definition incrementScanCount ::
  "qr_codes host \<Rightarrow> entropy \<Rightarrow> entropy \<Rightarrow> int \<Rightarrow> int \<Rightarrow> string \<Rightarrow> page \<Rightarrow>
   js_error + page" where
  "incrementScanCount h ent1 ent2 now server_time qrId w =
     (if uses_remote w then
        (case window_database w of
           None \<Rightarrow> Inl DatabaseError
         | Some db \<Rightarrow>
             if denies_write db then Inl DatabaseError
             else
               (case map_of (children db) qrId of
                  None \<Rightarrow> Inr w
                | Some currentData \<Rightarrow>
                    Inr (w\<lparr>window_database :=
                      Some (db\<lparr>children :=
                        assign qrId (scanned server_time currentData) (children db)\<rparr>)\<rparr>)))
      else if \<not> securityUtils_loaded w then Inl ReferenceError
      else
        (case getItem h ent1 ''qr-codes'' (localStorage w) of
           (r, ls1) \<Rightarrow>
             (case js_get (or_empty r) qrId of
                Undefined \<Rightarrow> Inr (w\<lparr>localStorage := ls1\<rparr>)
              | Own d \<Rightarrow>
                  Inr (w\<lparr>localStorage :=
                    setItem h ent2 ''qr-codes'' (assign qrId (scanned now d) (or_empty r)) ls1\<rparr>)
              | Inherited \<Rightarrow>
                  Inr (w\<lparr>localStorage := setItem h ent2 ''qr-codes'' (or_empty r) ls1,
                        mutated_builtins := qrId # mutated_builtins w\<rparr>))))"



text \<open>
  \<open>getRecentQRCodes\<close> catches every error and then returns no records. The remote
  query (\<open>orderByChild('createdAt').limitToLast(10)\<close>, each child put in front of the
  ones before) is modelled by a stable sort on \<open>createdAt\<close>.
\<close>

definition getRecentQRCodes :: "qr_codes host \<Rightarrow> entropy \<Rightarrow> page \<Rightarrow> qr_record list \<times> page" where
  "getRecentQRCodes h ent w =
     (if uses_remote w then
        (case window_database w of
           None \<Rightarrow> ([], w)
         | Some db \<Rightarrow>
             if denies_read db then ([], w)
             else
               (let ordered = sort_key createdAt (map snd (children db))
                in (rev (drop (length ordered - 10) ordered), w)))
      else if \<not> securityUtils_loaded w then ([], w)
      else
        (case getItem h ent ''qr-codes'' (localStorage w) of
           (r, ls1) \<Rightarrow>
             (take 10 (sort_key (\<lambda>d. - createdAt d) (map snd (or_empty r))),
              w\<lparr>localStorage := ls1\<rparr>)))"

text \<open>
  Sample data on which the model is evaluated: two records, the JSON text of the objects
  holding each, and a platform that serializes and parses exactly these texts (and
  \<open>{}\<close>), with the bytes and cipher of \<^const>\<open>demo_host\<close> and a limit of 100000
  arguments.
\<close>

definition record_abc :: qr_record where
  "record_abc = \<lparr>rec_id = ''abc'', rec_name = ''Demo'', originalText = ''https://example.org'',
                  logoPath = None, scanCount = 0, createdAt = 1000, lastScanned = None\<rparr>"

definition record_xyz :: qr_record where
  "record_xyz = \<lparr>rec_id = ''xyz'', rec_name = ''Other'', originalText = ''plain words'',
                  logoPath = None, scanCount = 2, createdAt = 2000, lastScanned = Some 2500\<rparr>"

definition json_abc :: string where
  "json_abc = ''{\"abc\":{\"id\":\"abc\",\"name\":\"Demo\",\"originalText\":\"https://example.org\",\"logoPath\":null,\"scanCount\":0,\"createdAt\":1000,\"lastScanned\":null}}''"

definition json_xyz :: string where
  "json_xyz = ''{\"xyz\":{\"id\":\"xyz\",\"name\":\"Other\",\"originalText\":\"plain words\",\"logoPath\":null,\"scanCount\":2,\"createdAt\":2000,\"lastScanned\":2500}}''"

definition sample_host :: "qr_codes host" where
  "sample_host =
     \<lparr>json_stringify =
        (\<lambda>v. if v = [(''abc'', record_abc)] then json_abc
              else if v = [(''xyz'', record_xyz)] then json_xyz
              else ''{}''),
      json_parse =
        (\<lambda>s. if s = json_abc then Some [(''abc'', record_abc)]
              else if s = json_xyz then Some [(''xyz'', record_xyz)]
              else if s = ''{}'' then Some []
              else None),
      text_encode = text_encode demo_host,
      text_decode = text_decode demo_host,
      btoa_bytes = btoa_bytes demo_host,
      atob_bytes = atob_bytes demo_host,
      encrypt = encrypt demo_host,
      decrypt = decrypt demo_host,
      max_arguments = 100000\<rparr>"

definition sample_entropy :: entropy where
  "sample_entropy = \<lparr>generateKey = Some (replicate 32 7), getRandomValues = replicate 12 1\<rparr>"

section \<open>Redirect resolver (QRRedirectManager.init)\<close>

text \<open>
  The fallback payload of a link, \<open>{text, name, created}\<close>, and what else the
  resolver asks of the browser: the URL parser, the decoding of the \<open>data\<close> parameter
  (\<open>JSON.parse(atob(decodeURIComponent(...)))\<close>, for a payload as the generator
  writes it, an object with these three fields; \<open>None\<close> when any of the three
  throws), whether the user agent is a mobile one, and the user's answer to the
  confirmation dialog.
\<close>

record payload =
  p_text :: string
  p_name :: string
  p_created :: int

record browser =
  parseURL :: url_parser
  decode_fallback :: "string \<Rightarrow> payload option"
  isMobile :: bool
  confirms :: bool

text \<open>The values of \<open>dataSource\<close>, and the console lines that tell what was tried.\<close>

datatype data_source = firebase | encrypted_storage | unencrypted_storage | url_fallback

datatype console =
    Attempting data_source
      \<comment> \<open>\<open>Attempting Firebase access...\<close>, \<open>Trying localStorage fallback...\<close>,
          \<open>Trying unencrypted localStorage...\<close>, \<open>Trying URL fallback data...\<close>\<close>
  | DataFound data_source
      \<comment> \<open>\<open>Data found in ...\<close>\<close>

type_synonym lookup = "(qr_record \<times> data_source) option \<times> console list \<times> page"

text \<open>First source: \<open>FirebaseManager.getQRCode\<close>, if the manager is loaded.\<close>

definition try_firebase :: "qr_codes host \<Rightarrow> entropy \<Rightarrow> string \<Rightarrow> page \<Rightarrow> lookup" where
  "try_firebase h ent qrId w =
     (if firebaseManager_loaded w then
        (case getQRCode h ent qrId w of
           Inl e \<Rightarrow> (None, [Attempting firebase], w)
         | Inr (None, w') \<Rightarrow> (None, [Attempting firebase], w')
         | Inr (Some qrData, w') \<Rightarrow>
             (Some (qrData, firebase), [Attempting firebase, DataFound firebase], w'))
      else (None, [], w))"

text \<open>
  Second source, the body of the \<open>try\<close> block: the vault, if \<open>SecurityUtils\<close> is
  loaded. Its result is a sum so that the \<open>catch\<close> block below has its place in the
  model; no branch of the body throws. As in \<open>getQRCode\<close>, the lookup is the one
  among the object's own entries.
\<close>

definition try_encrypted ::
  "qr_codes host \<Rightarrow> entropy \<Rightarrow> string \<Rightarrow> page \<Rightarrow> js_error + lookup" where
  "try_encrypted h ent qrId w =
     (if securityUtils_loaded w then
        (case getItem h ent ''qr-codes'' (localStorage w) of
           (r, ls1) \<Rightarrow>
             (case map_of (or_empty r) qrId of
                None \<Rightarrow> Inr (None, [Attempting encrypted_storage], w\<lparr>localStorage := ls1\<rparr>)
              | Some qrData \<Rightarrow>
                  Inr (Some (qrData, encrypted_storage),
                       [Attempting encrypted_storage, DataFound encrypted_storage],
                       w\<lparr>localStorage := ls1\<rparr>)))
      else Inr (None, [Attempting encrypted_storage], w))"

text \<open>
  Third source, the \<open>catch\<close> block of the second: the plain \<open>qr-codes\<close> slot, read
  and parsed directly.
\<close>

definition try_unencrypted :: "qr_codes host \<Rightarrow> string \<Rightarrow> page \<Rightarrow> lookup" where
  "try_unencrypted h qrId w =
     (if truthy (localStorage w ''qr-codes'') then
        (case localStorage w ''qr-codes'' of
           None \<Rightarrow> (None, [Attempting unencrypted_storage], w)
         | Some unencryptedData \<Rightarrow>
             (case json_parse h unencryptedData of
                None \<Rightarrow> (None, [Attempting unencrypted_storage], w)
              | Some parsedData \<Rightarrow>
                  (case map_of parsedData qrId of
                     None \<Rightarrow> (None, [Attempting unencrypted_storage], w)
                   | Some qrData \<Rightarrow>
                       (Some (qrData, unencrypted_storage),
                        [Attempting unencrypted_storage, DataFound unencrypted_storage], w))))
      else (None, [Attempting unencrypted_storage], w))"

definition try_local :: "qr_codes host \<Rightarrow> entropy \<Rightarrow> string \<Rightarrow> page \<Rightarrow> lookup" where
  "try_local h ent qrId w =
     (case try_encrypted h ent qrId w of
        Inr found \<Rightarrow> found
      | Inl e \<Rightarrow>
          (case try_unencrypted h qrId w of
             (r, c, w') \<Rightarrow> (r, Attempting encrypted_storage # c, w')))"

text \<open>Fourth source: the payload carried in the link.\<close>

definition try_url :: "browser \<Rightarrow> string \<Rightarrow> string option \<Rightarrow> page \<Rightarrow> lookup" where
  "try_url b qrId fallbackData w =
     (if truthy fallbackData then
        (case fallbackData of
           None \<Rightarrow> (None, [], w)
         | Some encoded \<Rightarrow>
             (case decode_fallback b encoded of
                None \<Rightarrow> (None, [Attempting url_fallback], w)
              | Some fallbackQRData \<Rightarrow>
                  (Some (\<lparr>rec_id = qrId, rec_name = p_name fallbackQRData,
                          originalText = p_text fallbackQRData, logoPath = None,
                          scanCount = 0, createdAt = p_created fallbackQRData,
                          lastScanned = None\<rparr>, url_fallback),
                   [Attempting url_fallback, DataFound url_fallback], w)))
      else (None, [], w))"

text \<open>The three \<open>if (!qrData)\<close> steps in sequence.\<close>

definition resolve ::
  "qr_codes host \<Rightarrow> browser \<Rightarrow> entropy \<Rightarrow> entropy \<Rightarrow> string \<Rightarrow> string option \<Rightarrow>
   page \<Rightarrow> lookup" where
  "resolve h b ent1 ent2 qrId fallbackData w =
     (case try_firebase h ent1 qrId w of
        (Some found, c1, w1) \<Rightarrow> (Some found, c1, w1)
      | (None, c1, w1) \<Rightarrow>
          (case try_local h ent2 qrId w1 of
             (Some found, c2, w2) \<Rightarrow> (Some found, c1 @ c2, w2)
           | (None, c2, w2) \<Rightarrow>
               (case try_url b qrId fallbackData w2 of
                  (r, c3, w3) \<Rightarrow> (r, c1 @ c2 @ c3, w3))))"

definition not_found_message :: "browser \<Rightarrow> string" where
  "not_found_message b =
     (if isMobile b
      then ''QR code not found. This may be because mobile browsers have stricter security settings. Please try opening this link in your mobile browser instead of scanning.''
      else ''QR code not found or has expired. This may be due to a database connection issue.'')"

definition failure_message :: "browser \<Rightarrow> string \<Rightarrow> string" where
  "failure_message b msg =
     (if isMobile b
      then ''Mobile scanning error: '' @ msg @ ''. Please try copying the link instead of scanning.''
      else ''Unable to process your request: '' @ msg @ ''. Please try again later.'')"

text \<open>
  The best-effort scan count: an error of \<open>incrementScanCount\<close> is caught and logged,
  and the page's state is what it was.
\<close>

definition count_scan ::
  "qr_codes host \<Rightarrow> entropy \<Rightarrow> entropy \<Rightarrow> int \<Rightarrow> int \<Rightarrow> string \<Rightarrow> page \<Rightarrow> page" where
  "count_scan h ent1 ent2 now server_time qrId w =
     (if firebaseManager_loaded w then
        (case incrementScanCount h ent1 ent2 now server_time qrId w of
           Inl e \<Rightarrow> w
         | Inr w' \<Rightarrow> w')
      else w)"

text \<open>
  \<open>init\<close>, with the redirect that its timer runs: what the page shows or where it
  goes, the console lines of the resolution, and the page's state. \<open>ents\<close> are the
  platform's draws for the successive vault operations. The announcement of
  the redirect goes through the global \<open>SecurityUtils\<close>, whose absence is a
  \<open>ReferenceError\<close> that the outer \<open>catch\<close> reports.
\<close>

definition init ::
  "qr_codes host \<Rightarrow> browser \<Rightarrow> (nat \<Rightarrow> entropy) \<Rightarrow> int \<Rightarrow> int \<Rightarrow> string option \<Rightarrow>
   string option \<Rightarrow> page \<Rightarrow> event list \<times> console list \<times> page" where
  "init h b ents now server_time qrId fallbackData w =
     (if \<not> truthy qrId then ([ShowError ''Invalid QR code link. No ID found.''], [], w)
      else
        (case qrId of
           None \<Rightarrow> ([ShowError ''Invalid QR code link. No ID found.''], [], w)
         | Some ident \<Rightarrow>
             (case resolve h b (ents 0) (ents 1) ident fallbackData w of
                (None, c, w1) \<Rightarrow> ([ShowError (not_found_message b)], c, w1)
              | (Some (qrData, dataSource), c, w1) \<Rightarrow>
                  (let w2 = count_scan h (ents 2) (ents 3) now server_time ident w1
                   in if \<not> securityUtils_loaded w2
                      then ([ShowError (failure_message b ''SecurityUtils is not defined'')], c, w2)
                      else (redirectToOriginal (parseURL b) (confirms b) (originalText qrData),
                            c, w2)))))"

text \<open>Sample pages and a sample browser on which the model is evaluated.\<close>

definition sample_browser :: browser where
  "sample_browser =
     \<lparr>parseURL = plainURL, decode_fallback = (\<lambda>s. None), isMobile = False, confirms = True\<rparr>"

text \<open>
  Firebase initialised, the connectivity monitor reporting \<open>disconnected\<close>, an empty
  remote database, empty local storage.
\<close>

definition disconnected_page :: page where
  "disconnected_page =
     \<lparr>firebase_loaded = True,
      window_database = Some \<lparr>children = [], denies_read = False, denies_write = False\<rparr>,
      firebaseInitialized = True, databaseAvailable = False,
      firebaseManager_loaded = True, securityUtils_loaded = True,
      localStorage = Map.empty, mutated_builtins = []\<rparr>"


text \<open>
  A remote database without the record \<open>abc\<close>; locally, an encrypted slot holding
  only the record \<open>xyz\<close>, beside a plain \<open>qr-codes\<close> slot that does hold \<open>abc\<close>.
\<close>

definition stale_page :: page where
  "stale_page =
     \<lparr>firebase_loaded = True,
      window_database = Some \<lparr>children = [], denies_read = False, denies_write = False\<rparr>,
      firebaseInitialized = True, databaseAvailable = True,
      firebaseManager_loaded = True, securityUtils_loaded = True,
      localStorage =
        (setItem sample_host sample_entropy ''qr-codes'' [(''xyz'', record_xyz)] Map.empty)
          (''qr-codes'' \<mapsto> json_abc),
      mutated_builtins = []\<rparr>"


chapter \<open>Part II: properties\<close>

section \<open>Rate limiter\<close>

lemma recent_recent:
  "t \<le> T \<Longrightarrow> recentRequests T (recentRequests t l) = recentRequests T l"
  by (induction l) (auto simp: recentRequests_def)

lemma recent_all:
  "\<forall>x\<in>set l. T - x < timeWindow \<Longrightarrow> recentRequests T l = l"
  by (induction l) (auto simp: recentRequests_def)

lemma recent_none:
  "\<forall>x\<in>set l. timeWindow \<le> T - x \<Longrightarrow> recentRequests T l = []"
  by (induction l) (auto simp: recentRequests_def)

lemma recent_append:
  "recentRequests T (a @ b) = recentRequests T a @ recentRequests T b"
  by (simp add: recentRequests_def)

lemma userRequests_upd: "userRequests (r(u \<mapsto> l)) u = l"
  by (simp add: userRequests_def)

lemma calls_Cons:
  "canMakeRequest t u r = (b, r') \<Longrightarrow>
   fst (calls (t # ts) u r) = b # fst (calls ts u r') \<and>
   snd (calls (t # ts) u r) = snd (calls ts u r')"
  by (cases "calls ts u r'") simp

lemma calls_append:
  "calls (xs @ ys) u r =
    (case calls xs u r of (bs, r') \<Rightarrow> (case calls ys u r' of (cs, r'') \<Rightarrow> (bs @ cs, r'')))"
  by (induction xs arbitrary: r) (auto split: prod.splits)

lemma calls_length: "length (fst (calls ts u r)) = length ts"
proof (induction ts arbitrary: r)
  case Nil
  then show ?case by simp
next
  case (Cons t ts)
  obtain b r' where c: "canMakeRequest t u r = (b, r')" by (cases "canMakeRequest t u r")
  show ?case using Cons.IH[of r'] calls_Cons[OF c, of ts] by simp
qed

text \<open>
  While the clock does not run backwards and the whole run fits in one window, a run of
  admitted calls appends its timestamps to what the window of the last call still holds.
\<close>

lemma calls_admitted_list:
  "sorted ts \<Longrightarrow> ts \<noteq> [] \<Longrightarrow> last ts - hd ts < timeWindow \<Longrightarrow>
   fst (calls ts u r) = replicate (length ts) True \<Longrightarrow>
   userRequests (snd (calls ts u r)) u = recentRequests (last ts) (userRequests r u) @ ts"
proof (induction ts arbitrary: r)
  case Nil
  then show ?case by simp
next
  case (Cons t ts)
  obtain b r' where c: "canMakeRequest t u r = (b, r')" by (cases "canMakeRequest t u r")
  obtain bs r'' where cs: "calls ts u r' = (bs, r'')" by (cases "calls ts u r'")
  from Cons.prems(4) c cs have b: "b" and bs: "bs = replicate (length ts) True" by auto
  from c b have r': "r' = r(u \<mapsto> recentRequests t (userRequests r u) @ [t])"
    by (auto simp: canMakeRequest_def Let_def split: if_splits)
  have fin: "snd (calls (t # ts) u r) = r''" using c cs by simp
  show ?case
  proof (cases ts)
    case Nil
    then have "r'' = r'" using cs by simp
    then show ?thesis unfolding fin using r' Nil by (simp add: userRequests_def)
  next
    case (Cons t2 rest)
    have s: "sorted ts" using Cons.prems(1) by simp
    have le: "t \<le> last ts" using Cons.prems(1) Cons by (auto)
    have w: "last ts - hd ts < timeWindow" using Cons.prems(1,3) Cons by (auto)
    have w2: "last ts - t < timeWindow" using Cons.prems(3) Cons by auto
    have ne: "ts \<noteq> []" using Cons by simp
    have "fst (calls ts u r') = replicate (length ts) True" using cs bs by simp
    from Cons.IH[OF s ne w this]
    have "userRequests r'' u = recentRequests (last ts) (userRequests r' u) @ ts"
      using cs by simp
    also have "recentRequests (last ts) (userRequests r' u)
        = recentRequests (last ts) (userRequests r u) @ [t]"
      using le w2 unfolding r' userRequests_upd recent_append
      by (simp add: recent_recent) (simp add: recentRequests_def)
    finally show ?thesis unfolding fin using ne by simp
  qed
qed

text \<open>Calls are admitted as long as the window holds fewer than ten timestamps.\<close>

lemma calls_all_admitted:
  "length (recentRequests t (userRequests r u)) + length (t # ts) \<le> maxRequests \<Longrightarrow>
   fst (calls (t # ts) u r) = replicate (length (t # ts)) True"
proof (induction ts arbitrary: t r)
  case Nil
  then show ?case by (simp add: canMakeRequest_def Let_def)
next
  case (Cons t2 ts)
  let ?r' = "r(u \<mapsto> recentRequests t (userRequests r u) @ [t])"
  have c: "canMakeRequest t u r = (True, ?r')"
    using Cons.prems by (simp add: canMakeRequest_def Let_def)
  have "length (recentRequests t2 (userRequests ?r' u))
          \<le> length (recentRequests t (userRequests r u)) + 1"
    unfolding userRequests_upd recentRequests_def
    by (metis (no_types, lifting) length_append_singleton length_filter_le Suc_eq_plus1)
  then have "length (recentRequests t2 (userRequests ?r' u)) + length (t2 # ts) \<le> maxRequests"
    using Cons.prems by simp
  from Cons.IH[OF this] have "fst (calls (t2 # ts) u ?r') = replicate (length (t2 # ts)) True" .
  with calls_Cons[OF c, of "t2 # ts"] show ?case by simp
qed

text \<open>
  After ten admitted calls within one window the caller's list is exactly the ten
  timestamps: whatever was recorded before has left the window.
\<close>

lemma ten_admitted_exact:
  assumes len: "length ts = 10" and srt: "sorted ts"
    and adm: "fst (calls ts u r) = replicate 10 True"
    and win: "last ts - hd ts < timeWindow"
  shows "userRequests (snd (calls ts u r)) u = ts"
proof -
  have ne: "ts \<noteq> []" using len by auto
  then obtain ys y where split: "ts = ys @ [y]" by (cases ts rule: rev_cases) auto
  have blen: "length ys = 9" using len split by simp
  have bne: "ys \<noteq> []" using blen by auto
  have y: "last ts = y" using split by simp
  obtain bs r9 where c9: "calls ys u r = (bs, r9)" by (cases "calls ys u r")
  obtain b r10 where c10: "canMakeRequest y u r9 = (b, r10)"
    by (cases "canMakeRequest y u r9")
  have all: "calls ts u r = (bs @ [b], r10)"
    using calls_append[of ys "[y]" u r] split c9 c10 by simp
  have lbs: "length bs = 9" using calls_length[of ys u r] c9 blen by simp
  have "bs @ [b] = replicate 9 True @ [True]"
    using adm all by (simp add: numeral_eq_Suc replicate_append_same)
  then have bs: "bs = replicate 9 True" and b: "b" using lbs by auto
  have bsrt: "sorted ys" using srt split by (simp add: sorted_append)
  have hd_eq: "hd ys = hd ts" using bne split by simp
  have last_le: "last ys \<le> y"
    using srt split bne by (simp add: sorted_append)
  have hd_le: "\<forall>x\<in>set ts. hd ts \<le> x"
    using srt ne by (cases ts) auto
  have bwin: "last ys - hd ys < timeWindow" using win last_le hd_eq y by simp
  have L9: "userRequests r9 u = recentRequests (last ys) (userRequests r u) @ ys"
    using calls_admitted_list[OF bsrt bne bwin, of u r] c9 bs blen by simp
  have inwin: "\<forall>x\<in>set ys. y - x < timeWindow"
  proof
    fix x assume "x \<in> set ys"
    then have "x \<in> set ts" using split by simp
    with hd_le have "hd ts \<le> x" by blast
    with win y show "y - x < timeWindow" by simp
  qed
  have R: "recentRequests y (userRequests r9 u)
            = recentRequests y (userRequests r u) @ ys"
    unfolding L9 recent_append using recent_recent[OF last_le] recent_all[OF inwin] by simp
  from c10 b have small: "length (recentRequests y (userRequests r9 u)) < maxRequests"
    by (auto simp: canMakeRequest_def Let_def split: if_splits)
  then have empty: "recentRequests (last ts) (userRequests r u) = []"
    unfolding R y using blen by (simp add: maxRequests_def)
  have "userRequests (snd (calls ts u r)) u = recentRequests (last ts) (userRequests r u) @ ts"
    using calls_admitted_list[OF srt ne win, of u r] adm len by simp
  then show ?thesis using empty by simp
qed

lemma canMakeRequest_other:
  "u' \<noteq> u \<Longrightarrow> snd (canMakeRequest t u r) u' = r u'"
  by (simp add: canMakeRequest_def Let_def)

lemma calls_other: "u' \<noteq> u \<Longrightarrow> snd (calls ts u r) u' = r u'"
proof (induction ts arbitrary: r)
  case Nil
  then show ?case by simp
next
  case (Cons t ts)
  obtain b r' where c: "canMakeRequest t u r = (b, r')" by (cases "canMakeRequest t u r")
  then have "r' u' = r u'" using canMakeRequest_other[OF Cons.prems, of t r] by simp
  with Cons.IH[OF Cons.prems, of r'] calls_Cons[OF c, of ts] show ?case by simp
qed

text \<open>
  Claim C9. The window is 60000 ms and the limit 10. Ten calls for one caller at clock
  readings \<open>ts\<close> (a clock that does not run backwards) that were all admitted, and an
  eleventh call at a time \<open>t\<close> at which the first of them is still less than 60000 ms
  old: the eleventh call is rejected and the limiter's state is the same afterwards (no
  timestamp is recorded). Once every one of the ten admissions is at least 60000 ms old,
  ten requests remain, and any run of up to ten further calls starting then is admitted
  in full. The calls of one caller leave every other caller's list alone.
\<close>

theorem rate_limiter_window:
  assumes "length ts = 10" and "sorted ts"
    and "fst (calls ts u r) = replicate 10 True"
    and "last ts \<le> t" and "t - hd ts < timeWindow"
  shows "timeWindow = 60000 \<and> maxRequests = 10 \<and>
         canMakeRequest t u (snd (calls ts u r)) = (False, snd (calls ts u r)) \<and>
         (\<forall>ts'. ts' \<noteq> [] \<and> length ts' \<le> 10 \<and> (\<forall>x\<in>set ts. timeWindow \<le> hd ts' - x) \<longrightarrow>
            getRemainingRequests (hd ts') u (snd (calls ts u r)) = 10 \<and>
            fst (calls ts' u (snd (calls ts u r))) = replicate (length ts') True) \<and>
         (\<forall>u'. u' \<noteq> u \<longrightarrow> snd (calls ts u r) u' = r u')"
proof -
  let ?r10 = "snd (calls ts u r)"
  have ne: "ts \<noteq> []" using assms(1) by auto
  have hd_le: "\<forall>x\<in>set ts. hd ts \<le> x" using assms(2) ne by (cases ts) auto
  have win: "last ts - hd ts < timeWindow" using assms(4,5) by simp
  have L: "userRequests ?r10 u = ts"
    by (rule ten_admitted_exact[OF assms(1,2,3) win])
  have "\<forall>x\<in>set ts. t - x < timeWindow" using hd_le assms(5) by fastforce
  then have "recentRequests t (userRequests ?r10 u) = ts" unfolding L by (rule recent_all)
  then have first: "canMakeRequest t u ?r10 = (False, ?r10)"
    using assms(1) by (simp add: canMakeRequest_def Let_def maxRequests_def)
  have second: "getRemainingRequests (hd ts') u ?r10 = 10 \<and>
            fst (calls ts' u ?r10) = replicate (length ts') True"
    if h: "ts' \<noteq> [] \<and> length ts' \<le> 10 \<and> (\<forall>x\<in>set ts. timeWindow \<le> hd ts' - x)" for ts'
  proof -
    from h have e: "recentRequests (hd ts') (userRequests ?r10 u) = []"
      unfolding L by (intro recent_none) blast
    obtain t' rest where ts': "ts' = t' # rest" using h by (cases ts') auto
    have "length (recentRequests t' (userRequests ?r10 u)) + length (t' # rest) \<le> maxRequests"
      using e h ts' by (simp add: maxRequests_def)
    from calls_all_admitted[OF this] show ?thesis
      using e ts' by (simp add: getRemainingRequests_def maxRequests_def)
  qed
  have third: "\<forall>u'. u' \<noteq> u \<longrightarrow> ?r10 u' = r u'" by (simp add: calls_other)
  have limits: "timeWindow = 60000 \<and> maxRequests = 10"
    by (simp add: timeWindow_def maxRequests_def)
  from limits first second third show ?thesis by blast
qed

theorem rate_limiter_window_witness:
  "canMakeRequest 9500 ''anonymous''
      (snd (calls [0, 1000, 2000, 3000, 4000, 5000, 6000, 7000, 8000, 9000] ''anonymous'' Map.empty))
    = (False, snd (calls [0, 1000, 2000, 3000, 4000, 5000, 6000, 7000, 8000, 9000] ''anonymous'' Map.empty)) \<and>
   getRemainingRequests 69000 ''anonymous''
      (snd (calls [0, 1000, 2000, 3000, 4000, 5000, 6000, 7000, 8000, 9000] ''anonymous'' Map.empty))
    = 10 \<and>
   fst (calls [69000, 69001] ''anonymous''
      (snd (calls [0, 1000, 2000, 3000, 4000, 5000, 6000, 7000, 8000, 9000] ''anonymous'' Map.empty)))
    = [True, True] \<and>
   snd (calls [0, 1000, 2000, 3000, 4000, 5000, 6000, 7000, 8000, 9000] ''anonymous'' Map.empty)
     ''someone else'' = None"
proof -
  let ?ts = "[0, 1000, 2000, 3000, 4000, 5000, 6000, 7000, 8000, 9000] :: int list"
  let ?r10 = "snd (calls ?ts ''anonymous'' Map.empty)"
  have a: "length ?ts = 10" by simp
  have b: "sorted ?ts" by simp
  have c: "fst (calls ?ts ''anonymous'' Map.empty) = replicate 10 True"
    by (simp add: canMakeRequest_def Let_def recentRequests_def userRequests_def
        maxRequests_def timeWindow_def numeral_eq_Suc)
  have d: "last ?ts \<le> 9500" by simp
  have e: "9500 - hd ?ts < timeWindow" by (simp add: timeWindow_def)
  have f: "[69000, 69001 :: int] \<noteq> [] \<and> length [69000, 69001 :: int] \<le> 10 \<and>
           (\<forall>x\<in>set ?ts. timeWindow \<le> hd [69000, 69001] - x)"
    by (simp add: timeWindow_def)
  have g: "''someone else'' \<noteq> ''anonymous''" by simp
  note th = rate_limiter_window[OF a b c d e]
  have w1: "canMakeRequest 9500 ''anonymous'' ?r10 = (False, ?r10)"
    by (rule th[THEN conjunct2, THEN conjunct2, THEN conjunct1])
  have w2: "getRemainingRequests (hd [69000, 69001]) ''anonymous'' ?r10 = 10 \<and>
      fst (calls [69000, 69001] ''anonymous'' ?r10) = replicate (length [69000, 69001 :: int]) True"
    by (rule th[THEN conjunct2, THEN conjunct2, THEN conjunct2, THEN conjunct1,
          THEN spec, THEN mp, OF f])
  have w3: "?r10 ''someone else'' = Map.empty ''someone else''"
    by (rule th[THEN conjunct2, THEN conjunct2, THEN conjunct2, THEN conjunct2,
          THEN spec, THEN mp, OF g])
  have w4: "replicate (length [69000, 69001 :: int]) True = [True, True]" by simp
  have w5: "hd [69000, 69001 :: int] = 69000" by simp
  note w2' = w2[unfolded w4 w5]
  show ?thesis
    by (intro conjI) (rule w1, rule w2'[THEN conjunct1], rule w2'[THEN conjunct2], rule w3)
qed

section \<open>Input validator\<close>

lemma trim_Nil: "trim [] = []"
  by (simp add: trim_def)

lemma tagPattern_iff:
  "tagPattern tag s \<longleftrightarrow> (\<exists>a b c. toLowerCase s = a @ ''<'' @ tag @ b @ ''>'' @ c)"
proof
  assume "tagPattern tag s"
  then obtain t where t: "suffix t (toLowerCase s)" "prefix (CHR ''<'' # tag) t"
      "CHR ''>'' \<in> set (drop (Suc (length tag)) t)"
    by (auto simp: tagPattern_def list_ex_iff)
  from t(1) obtain a where a: "toLowerCase s = a @ t" by (auto simp: suffix_def)
  from t(2) obtain r where r: "t = (CHR ''<'' # tag) @ r" by (auto simp: prefix_def)
  from t(3) r have "CHR ''>'' \<in> set r" by simp
  then obtain b c where "r = b @ CHR ''>'' # c" by (auto simp: in_set_conv_decomp)
  with a r show "\<exists>a b c. toLowerCase s = a @ ''<'' @ tag @ b @ ''>'' @ c" by auto
next
  assume "\<exists>a b c. toLowerCase s = a @ ''<'' @ tag @ b @ ''>'' @ c"
  then obtain a b c where e: "toLowerCase s = a @ ''<'' @ tag @ b @ ''>'' @ c" by blast
  let ?t = "''<'' @ tag @ b @ ''>'' @ c"
  have "suffix ?t (toLowerCase s)" using e by (auto simp: suffix_def)
  moreover have "prefix (CHR ''<'' # tag) ?t" by (simp add: prefix_def)
  moreover have "CHR ''>'' \<in> set (drop (Suc (length tag)) ?t)" by simp
  ultimately show "tagPattern tag s"
    unfolding tagPattern_def list_ex_iff by (metis in_set_suffixes)
qed

lemma ciPattern_iff: "ciPattern w s \<longleftrightarrow> (\<exists>a c. toLowerCase s = a @ w @ c)"
  by (simp add: ciPattern_def includes_str_def sublist_def)

lemma malicious_iff: "malicious s = blacklisted s"
  unfolding malicious_def maliciousPatterns_def blacklisted_def
  by (simp add: tagPattern_iff ciPattern_iff) blast

lemma blacklisted_case: "toLowerCase a = toLowerCase b \<Longrightarrow> blacklisted a = blacklisted b"
  by (simp add: blacklisted_def)

text \<open>
  Claim C6 (as amended). The validator accepts exactly when the text is not blank and
  has at most 4000 characters, the name is not blank and has at most 100 characters, and
  neither field holds a blacklisted pattern. The blacklist looks at the field in lower
  case only, so letter case never matters. A field that holds a blacklisted pattern is
  always rejected; the rejection is the one reporting invalid content whenever both
  fields pass the blank and length checks, which the code makes first.
\<close>

theorem validateQRInput_policy:
  "((validateQRInput txt name = Inr True) =
      (trim txt \<noteq> [] \<and> length txt \<le> 4000 \<and> trim name \<noteq> [] \<and> length name \<le> 100 \<and>
       \<not> blacklisted txt \<and> \<not> blacklisted name)) \<and>
   (blacklisted txt \<or> blacklisted name \<longrightarrow> (\<exists>e. validateQRInput txt name = Inl e)) \<and>
   (blacklisted txt \<or> blacklisted name \<longrightarrow>
      trim txt \<noteq> [] \<and> length txt \<le> 4000 \<and> trim name \<noteq> [] \<and> length name \<le> 100 \<longrightarrow>
      (\<exists>e. validateQRInput txt name = Inl e \<and> security_error e)) \<and>
   (\<forall>txt'. toLowerCase txt' = toLowerCase txt \<longrightarrow> blacklisted txt' = blacklisted txt)"
proof (intro conjI allI impI)
  show "(validateQRInput txt name = Inr True) =
      (trim txt \<noteq> [] \<and> length txt \<le> 4000 \<and> trim name \<noteq> [] \<and> length name \<le> 100 \<and>
       \<not> blacklisted txt \<and> \<not> blacklisted name)"
    using trim_Nil by (auto simp: validateQRInput_def malicious_iff)
next
  assume "blacklisted txt \<or> blacklisted name"
  then show "\<exists>e. validateQRInput txt name = Inl e"
    by (auto simp: validateQRInput_def malicious_iff)
next
  assume "blacklisted txt \<or> blacklisted name"
    and "trim txt \<noteq> [] \<and> length txt \<le> 4000 \<and> trim name \<noteq> [] \<and> length name \<le> 100"
  then show "\<exists>e. validateQRInput txt name = Inl e \<and> security_error e"
    using trim_Nil by (auto simp: validateQRInput_def malicious_iff security_error_def)
next
  fix txt' assume "toLowerCase txt' = toLowerCase txt"
  then show "blacklisted txt' = blacklisted txt" by (rule blacklisted_case)
qed

theorem validateQRInput_policy_witness:
  "validateQRInput ''https://example.org'' ''Demo'' = Inr True \<and>
   (\<exists>e. validateQRInput ''<SCRIPT>alert(1)</SCRIPT>'' ''Demo'' = Inl e \<and> security_error e)"
proof -
  have a: "trim ''https://example.org'' \<noteq> [] \<and> length ''https://example.org'' \<le> 4000 \<and>
      trim ''Demo'' \<noteq> [] \<and> length ''Demo'' \<le> 100" by code_simp
  have b: "\<not> malicious ''https://example.org'' \<and> \<not> malicious ''Demo''" by code_simp
  have c: "malicious ''<SCRIPT>alert(1)</SCRIPT>''" by code_simp
  have d: "trim ''<SCRIPT>alert(1)</SCRIPT>'' \<noteq> [] \<and> length ''<SCRIPT>alert(1)</SCRIPT>'' \<le> 4000"
    by code_simp
  from validateQRInput_policy[of "''https://example.org''" "''Demo''"]
       validateQRInput_policy[of "''<SCRIPT>alert(1)</SCRIPT>''" "''Demo''"] a b c d
  show ?thesis unfolding malicious_iff by blast
qed

text \<open>
  The claim as first stated fails: a text holding a script tag, submitted with an empty
  name, is rejected with the request to enter a name, not with a security error.
\<close>

theorem validateQRInput_security_counterexample:
  "blacklisted ''<script>alert(1)</script>'' \<and>
   validateQRInput ''<script>alert(1)</script>'' '''' = Inl EnterName \<and>
   \<not> security_error EnterName"
proof -
  have "malicious ''<script>alert(1)</script>''" by code_simp
  moreover have "validateQRInput ''<script>alert(1)</script>'' '''' = Inl EnterName" by code_simp
  ultimately show ?thesis by (simp add: malicious_iff security_error_def)
qed

section \<open>URL classification and the allow-list\<close>

text \<open>
  Claim C4. For every string, \<open>isValidURL\<close> holds exactly when the string is
  navigable in the sense of the specification: it parses with scheme http or https and
  holds none of the blocked schemes in any letter case, or it fails to parse, holds one
  of \<open>.com\<close>, \<open>.org\<close>, \<open>.net\<close>, \<open>www.\<close>, and parses with \<open>https://\<close> in front.
\<close>

theorem isValidURL_iff: "isValidURL newURL s \<longleftrightarrow> navigable newURL s"
  by (cases "newURL s")
     (auto simp: isValidURL_def navigable_def dangerousPatterns_def split: option.splits)

theorem isValidURL_iff_witness:
  "navigable plainURL ''https://example.org/a'' \<and>
   \<not> navigable plainURL ''https://example.org/?next=JavaScript:alert(1)'' \<and>
   navigable plainURL ''www.example.com'' \<and>
   \<not> navigable plainURL ''plain words''"
proof -
  have "isValidURL plainURL ''https://example.org/a''" by code_simp
  moreover have "\<not> isValidURL plainURL ''https://example.org/?next=JavaScript:alert(1)''"
    by code_simp
  moreover have "isValidURL plainURL ''www.example.com''" by code_simp
  moreover have "\<not> isValidURL plainURL ''plain words''" by code_simp
  ultimately show ?thesis
    using isValidURL_iff[of plainURL] by blast
qed




section \<open>Crypto vault\<close>

lemma byte_lt: "unat (w::8 word) < 256"
  using unsigned_less[of w, where 'a=nat] by simp

lemma byte_char: "(word_of_nat (unat (w::8 word) mod 256) :: 8 word) = w"
  by (simp add: byte_lt)

lemma char_byte: "char_of (unat (of_nat (of_char (c::char)) :: 8 word)) = c"
  by (simp add: unat_of_nat)

lemma demo_platform_ok: "platform_ok demo_host"
  unfolding platform_ok_def demo_host_def
  by (auto simp: byte_char char_byte map_idI comp_def)

lemma demo_codec_ok: "codec_ok demo_host v"
proof -
  have rt: "text_decode demo_host (text_encode demo_host s) = s" for s
    by (simp add: demo_host_def comp_def char_byte map_idI)
  have j: "json_parse demo_host (json_stringify demo_host v) = Some v"
    by (simp add: demo_host_def)
  have n: "json_stringify demo_host v \<noteq> []"
    by (simp add: demo_host_def)
  from rt j n show ?thesis by (simp add: codec_ok_def)
qed

lemma demo_host_ok: "host_ok demo_host"
  by (simp add: host_ok_def demo_platform_ok demo_codec_ok)

lemma encrypted_slot_neq_key_slot: "encrypted_slot key \<noteq> key_slot"
  by (simp add: encrypted_slot_def key_slot_def)

lemma encrypted_slot_neq: "encrypted_slot key \<noteq> key"
proof
  assume "encrypted_slot key = key"
  then have "length (encrypted_slot key) = length key" by simp
  then show False by (simp add: encrypted_slot_def)
qed

text \<open>
  Once the device key has been obtained, it is an AES key and its slot is filled, and
  obtaining it again, whatever the platform would draw, changes nothing and yields the
  same key material.
\<close>

lemma getOrCreateKey_again:
  assumes h: "platform_ok h" and e: "entropy_ok ent"
    and g: "getOrCreateKey h ent ls = (Some ck, ls1)"
  shows "truthy (ls1 key_slot)"
    and "\<exists>ck'. getOrCreateKey h ent' ls1 = (Some ck', ls1) \<and> raw ck' = raw ck \<and> aes_key ck'"
    and "\<forall>k. k \<noteq> key_slot \<longrightarrow> ls1 k = ls k"
    and "aes_key ck"
proof -
  have rt: "\<And>b. atob_bytes h (btoa_bytes h b) = Some b"
    and ne: "\<And>b. b \<noteq> [] \<Longrightarrow> btoa_bytes h b \<noteq> []"
    and lim: "32 \<le> max_arguments h"
    using h by (auto simp: platform_ok_def)
  show "truthy (ls1 key_slot)"
  proof (cases "truthy (ls key_slot)")
    case True
    with g show ?thesis by (auto simp: getOrCreateKey_def split: option.splits)
  next
    case False
    with g obtain r where r: "generateKey ent = Some r" "ls1 = ls(key_slot \<mapsto> btoa_bytes h r)"
      by (auto simp: getOrCreateKey_def spread_btoa_def split: option.splits if_splits)
    from e r(1) have "length r = 32" by (simp add: entropy_ok_def)
    then have "r \<noteq> []" by auto
    with ne r(2) show ?thesis by simp
  qed
  show "\<exists>ck'. getOrCreateKey h ent' ls1 = (Some ck', ls1) \<and> raw ck' = raw ck \<and> aes_key ck'"
  proof (cases "truthy (ls key_slot)")
    case True
    with g have "ls1 = ls" by (auto simp: getOrCreateKey_def split: option.splits)
    with g True show ?thesis
      by (auto simp: getOrCreateKey_def importKey_def aes_key_def split: option.splits if_splits)
  next
    case False
    with g obtain r where r: "generateKey ent = Some r" "ls1 = ls(key_slot \<mapsto> btoa_bytes h r)"
        "ck = CryptoKey r True"
      by (auto simp: getOrCreateKey_def spread_btoa_def split: option.splits if_splits)
    from e r(1) have len: "length r = 32" by (simp add: entropy_ok_def)
    then have "r \<noteq> []" by auto
    with ne have "btoa_bytes h r \<noteq> []" by simp
    then show ?thesis using r len rt
      by (simp add: getOrCreateKey_def importKey_def aes_key_def)
  qed
  show "\<forall>k. k \<noteq> key_slot \<longrightarrow> ls1 k = ls k"
    using g by (auto simp: getOrCreateKey_def spread_btoa_def split: option.splits if_splits)
  show "aes_key ck"
  proof (cases "truthy (ls key_slot)")
    case True
    with g show ?thesis
      by (auto simp: getOrCreateKey_def importKey_def aes_key_def split: option.splits if_splits)
  next
    case False
    with g obtain r where r: "generateKey ent = Some r" "ck = CryptoKey r True"
      by (auto simp: getOrCreateKey_def spread_btoa_def split: option.splits if_splits)
    from e r(1) have "length r = 32" by (simp add: entropy_ok_def)
    with r(2) show ?thesis by (simp add: aes_key_def)
  qed
qed

text \<open>Obtaining the key looks at the key slot only.\<close>

lemma getOrCreateKey_filled:
  assumes "truthy (ls key_slot)" and "ls' key_slot = ls key_slot"
  shows "getOrCreateKey h ent' ls' = (fst (getOrCreateKey h ent ls), ls')"
  using assms by (auto simp: getOrCreateKey_def split: option.splits)

text \<open>
  With a working platform, the key at hand and the encrypted form within the limit on
  arguments, \<open>setItem\<close> takes the encrypted path.
\<close>

lemma setItem_encrypted:
  assumes h: "platform_ok h" and e: "entropy_ok ent"
    and g: "getOrCreateKey h ent ls = (Some ck, ls1)"
    and f: "fits h ent v"
  shows "\<exists>ct. encrypt h ck (getRandomValues ent) (text_encode h (json_stringify h v)) = Some ct \<and>
           setItem h ent key v ls =
             ls1(encrypted_slot key \<mapsto> btoa_bytes h (getRandomValues ent @ ct))"
proof -
  have "length (getRandomValues ent) = 12" using e by (simp add: entropy_ok_def)
  then have "encrypt h ck (getRandomValues ent) (text_encode h (json_stringify h v)) \<noteq> None"
    using h by (simp add: platform_ok_def)
  then obtain ct where
    ct: "encrypt h ck (getRandomValues ent) (text_encode h (json_stringify h v)) = Some ct"
    by auto
  have "aes_key ck" by (rule getOrCreateKey_again(4)[OF h e g])
  with f ct have "length (getRandomValues ent @ ct) \<le> max_arguments h"
    unfolding fits_def by blast
  then have "spread_btoa h (getRandomValues ent @ ct) = Some (btoa_bytes h (getRandomValues ent @ ct))"
    by (simp add: spread_btoa_def)
  then show ?thesis using g ct by (simp add: setItem_def Let_def)
qed

text \<open>
  Where the encrypted form exceeds the limit, the spread throws and \<open>setItem\<close> writes
  the plain serialization under the key itself.
\<close>

lemma setItem_too_large:
  assumes h: "platform_ok h" and e: "entropy_ok ent"
    and g: "getOrCreateKey h ent ls = (Some ck, ls1)"
    and f: "too_large h ent v"
  shows "setItem h ent key v ls = ls1(key \<mapsto> json_stringify h v)"
proof -
  have "length (getRandomValues ent) = 12" using e by (simp add: entropy_ok_def)
  then have "encrypt h ck (getRandomValues ent) (text_encode h (json_stringify h v)) \<noteq> None"
    using h by (simp add: platform_ok_def)
  then obtain ct where
    ct: "encrypt h ck (getRandomValues ent) (text_encode h (json_stringify h v)) = Some ct"
    by auto
  have "aes_key ck" by (rule getOrCreateKey_again(4)[OF h e g])
  with f ct have "max_arguments h < length (getRandomValues ent @ ct)"
    unfolding too_large_def by blast
  then have "spread_btoa h (getRandomValues ent @ ct) = None"
    by (simp add: spread_btoa_def)
  then show ?thesis using g ct by (simp add: setItem_def Let_def)
qed

text \<open>Reading an encrypted slot written under the same key material.\<close>

lemma getItem_encrypted:
  assumes h: "platform_ok h" and cv: "codec_ok h v"
    and slot: "s (encrypted_slot key) = Some (btoa_bytes h (iv @ ct))"
    and iv: "length iv = 12"
    and enc: "encrypt h ck iv (text_encode h (json_stringify h v)) = Some ct"
    and g: "getOrCreateKey h ent' s = (Some ck', s)" and r: "raw ck' = raw ck"
  shows "getItem h ent' key s = (Some v, s)"
proof -
  have "iv @ ct \<noteq> []" using iv by auto
  then have ne: "btoa_bytes h (iv @ ct) \<noteq> []"
    using h unfolding platform_ok_def by blast
  have at: "atob_bytes h (btoa_bytes h (iv @ ct)) = Some (iv @ ct)"
    using h by (simp add: platform_ok_def)
  have dec: "decrypt h ck' iv ct = Some (text_encode h (json_stringify h v))"
    using h enc r unfolding platform_ok_def by blast
  have td: "text_decode h (text_encode h (json_stringify h v)) = json_stringify h v"
    using cv by (simp add: codec_ok_def)
  have jp: "json_parse h (json_stringify h v) = Some v"
    using cv by (simp add: codec_ok_def)
  show ?thesis
    using slot ne at iv dec td jp g by (simp add: getItem_def)
qed

text \<open>
  The round trip where it holds: on a working platform on which the device key can be
  obtained, for a value whose encrypted form is within the limit on arguments.
\<close>

lemma vault_roundtrip:
  assumes "platform_ok h" and "codec_ok h v" and "entropy_ok ent"
    and "fst (getOrCreateKey h ent ls) \<noteq> None" and "fits h ent v"
  shows "getItem h ent' key (setItem h ent key v ls) = (Some v, setItem h ent key v ls)"
proof -
  obtain ck ls1 where g: "getOrCreateKey h ent ls = (Some ck, ls1)"
    using assms(4) by (cases "getOrCreateKey h ent ls") auto
  from setItem_encrypted[OF assms(1,3) g assms(5), of key] obtain ct where
    enc: "encrypt h ck (getRandomValues ent) (text_encode h (json_stringify h v)) = Some ct"
    and s: "setItem h ent key v ls =
             ls1(encrypted_slot key \<mapsto> btoa_bytes h (getRandomValues ent @ ct))"
    by blast
  let ?s = "setItem h ent key v ls"
  have iv: "length (getRandomValues ent) = 12" using assms(3) by (simp add: entropy_ok_def)
  have filled: "truthy (ls1 key_slot)" by (rule getOrCreateKey_again(1)[OF assms(1,3) g])
  obtain ck' where g1: "getOrCreateKey h ent' ls1 = (Some ck', ls1)" and r: "raw ck' = raw ck"
    using getOrCreateKey_again(2)[OF assms(1,3) g, of ent'] by blast
  have same: "?s key_slot = ls1 key_slot"
    using encrypted_slot_neq_key_slot[of key] by (simp add: s)
  have g2: "getOrCreateKey h ent' ?s = (Some ck', ?s)"
    using getOrCreateKey_filled[where ls=ls1 and ls'="?s", OF filled same, of h ent' ent'] g1
      by simp
  have slot: "?s (encrypted_slot key) = Some (btoa_bytes h (getRandomValues ent @ ct))"
    by (simp add: s)
  show ?thesis by (rule getItem_encrypted[OF assms(1,2) slot iv enc g2 r])
qed

text \<open>
  Claim C7, where the code departs from it. On a working platform, store a value \<open>v1\<close>
  whose encrypted form is within the engine's limit on arguments, then under the same
  key a value \<open>v2\<close> whose encrypted form exceeds it. The spread in the second \<open>setItem\<close>
  throws, the plain serialization of \<open>v2\<close> goes to the slot \<open>key\<close> itself, and the
  encrypted slot keeps \<open>v1\<close>: \<open>getItem\<close> after \<open>setItem key v2\<close> returns \<open>v1\<close>.
\<close>

theorem large_value_not_read_back:
  assumes "platform_ok h" and "codec_ok h v1" and "entropy_ok ent1" and "entropy_ok ent2"
    and "fst (getOrCreateKey h ent1 ls) \<noteq> None" and "key \<noteq> key_slot"
    and "fits h ent1 v1" and "too_large h ent2 v2"
  shows "getItem h ent' key (setItem h ent2 key v2 (setItem h ent1 key v1 ls)) =
           (Some v1, setItem h ent2 key v2 (setItem h ent1 key v1 ls))"
proof -
  obtain ck ls1 where g: "getOrCreateKey h ent1 ls = (Some ck, ls1)"
    using assms(5) by (cases "getOrCreateKey h ent1 ls") auto
  from setItem_encrypted[OF assms(1,3) g assms(7), of key] obtain ct where
    enc: "encrypt h ck (getRandomValues ent1) (text_encode h (json_stringify h v1)) = Some ct"
    and s1: "setItem h ent1 key v1 ls =
             ls1(encrypted_slot key \<mapsto> btoa_bytes h (getRandomValues ent1 @ ct))"
    by blast
  let ?s1 = "setItem h ent1 key v1 ls"
  have iv: "length (getRandomValues ent1) = 12" using assms(3) by (simp add: entropy_ok_def)
  have filled: "truthy (ls1 key_slot)" by (rule getOrCreateKey_again(1)[OF assms(1,3) g])
  have same1: "?s1 key_slot = ls1 key_slot"
    using encrypted_slot_neq_key_slot[of key] by (simp add: s1)
  obtain ck2 where k2: "getOrCreateKey h ent2 ls1 = (Some ck2, ls1)"
    using getOrCreateKey_again(2)[OF assms(1,3) g, of ent2] by blast
  have g2: "getOrCreateKey h ent2 ?s1 = (Some ck2, ?s1)"
    using getOrCreateKey_filled[where ls=ls1 and ls'="?s1", OF filled same1, of h ent2 ent2] k2
    by simp
  have s2: "setItem h ent2 key v2 ?s1 = ?s1(key \<mapsto> json_stringify h v2)"
    by (rule setItem_too_large[OF assms(1,4) g2 assms(8)])
  let ?s2 = "setItem h ent2 key v2 ?s1"
  have same2: "?s2 key_slot = ls1 key_slot"
    using same1 assms(6) by (simp add: s2)
  obtain ck' where g1: "getOrCreateKey h ent' ls1 = (Some ck', ls1)" and r: "raw ck' = raw ck"
    using getOrCreateKey_again(2)[OF assms(1,3) g, of ent'] by blast
  have g3: "getOrCreateKey h ent' ?s2 = (Some ck', ?s2)"
    using getOrCreateKey_filled[where ls=ls1 and ls'="?s2", OF filled same2, of h ent' ent'] g1
    by simp
  have "?s2 (encrypted_slot key) = ?s1 (encrypted_slot key)"
    using encrypted_slot_neq[of key] by (simp add: s2)
  then have slot: "?s2 (encrypted_slot key) = Some (btoa_bytes h (getRandomValues ent1 @ ct))"
    by (simp add: s1)
  show ?thesis by (rule getItem_encrypted[OF assms(1,2) slot iv enc g3 r])
qed

theorem large_value_not_read_back_witness:
  "getItem demo_host \<lparr>generateKey = None, getRandomValues = []\<rparr> ''qr-codes''
      (setItem demo_host \<lparr>generateKey = None, getRandomValues = replicate 12 2\<rparr>
         ''qr-codes'' (replicate 70 CHR ''a'')
         (setItem demo_host \<lparr>generateKey = Some (replicate 32 7), getRandomValues = replicate 12 1\<rparr>
            ''qr-codes'' ''hi'' Map.empty))
     = (Some ''hi'',
        setItem demo_host \<lparr>generateKey = None, getRandomValues = replicate 12 2\<rparr>
         ''qr-codes'' (replicate 70 CHR ''a'')
         (setItem demo_host \<lparr>generateKey = Some (replicate 32 7), getRandomValues = replicate 12 1\<rparr>
            ''qr-codes'' ''hi'' Map.empty))"
proof -
  let ?ent1 = "\<lparr>generateKey = Some (replicate 32 7), getRandomValues = replicate 12 1\<rparr>"
  let ?ent2 = "\<lparr>generateKey = None, getRandomValues = replicate 12 2\<rparr>"
  have e1: "entropy_ok ?ent1" by (simp add: entropy_ok_def)
  have e2: "entropy_ok ?ent2" by (simp add: entropy_ok_def)
  have k: "fst (getOrCreateKey demo_host ?ent1 Map.empty) \<noteq> None"
    by (simp add: getOrCreateKey_def spread_btoa_def demo_host_def)
  have n: "''qr-codes'' \<noteq> key_slot" by (simp add: key_slot_def)
  have f: "fits demo_host ?ent1 ''hi''"
    by (auto simp: fits_def aes_key_def demo_host_def)
  have l: "too_large demo_host ?ent2 (replicate 70 CHR ''a'')"
    by (auto simp: too_large_def aes_key_def demo_host_def)
  show ?thesis
    by (rule large_value_not_read_back[OF demo_platform_ok demo_codec_ok e1 e2 k n f l])
qed


text \<open>
  Claim C8, where the code departs from it. Where Web Crypto is not available (no key
  can be generated and none is stored), the migration's \<open>setItem\<close> falls back to
  writing the plain serialization under \<open>key\<close>, the very slot that the migration then
  removes. The first \<open>getItem\<close> on a legacy slot returns the value and leaves neither
  an encrypted nor a plain slot; the second returns \<open>null\<close>.
\<close>

theorem legacy_migration_loses_data:
  assumes "\<not> truthy (ls key_slot)" and "generateKey ent = None" and "key \<noteq> key_slot"
    and "\<not> truthy (ls (encrypted_slot key))"
    and "ls key = Some (json_stringify h v)" and "codec_ok h v"
  shows "getItem h ent key ls = (Some v, ls(key := None)) \<and>
         (ls(key := None)) (encrypted_slot key) = ls (encrypted_slot key) \<and>
         (\<forall>ent'. getItem h ent' key (ls(key := None)) = (None, ls(key := None)))"
proof -
  have g: "getOrCreateKey h ent ls = (None, ls)"
    using assms(1,2) by (simp add: getOrCreateKey_def)
  then have s: "setItem h ent key v ls = ls(key \<mapsto> json_stringify h v)"
    by (simp add: setItem_def)
  have sne: "json_stringify h v \<noteq> []" and jp: "json_parse h (json_stringify h v) = Some v"
    using assms(6) by (auto simp: codec_ok_def)
  have first: "getItem h ent key ls = (Some v, ls(key := None))"
    using assms(4,5) sne jp s by (simp add: getItem_def)
  have same: "(ls(key := None)) (encrypted_slot key) = ls (encrypted_slot key)"
    using encrypted_slot_neq[of key] by simp
  then have "\<not> truthy ((ls(key := None)) (encrypted_slot key))"
    using assms(4) by simp
  then have second: "getItem h ent' key (ls(key := None)) = (None, ls(key := None))" for ent'
    by (simp add: getItem_def)
  from first same second show ?thesis by blast
qed

theorem legacy_migration_loses_data_witness:
  "getItem demo_host \<lparr>generateKey = None, getRandomValues = replicate 12 1\<rparr> ''qr-codes''
      [''qr-codes'' \<mapsto> ''\"legacy\"''] = (Some ''legacy'', Map.empty) \<and>
   getItem demo_host \<lparr>generateKey = None, getRandomValues = replicate 12 1\<rparr> ''qr-codes''
      Map.empty = (None, Map.empty)"
proof -
  let ?ent = "\<lparr>generateKey = None, getRandomValues = replicate 12 1\<rparr>"
  let ?ls = "[''qr-codes'' \<mapsto> ''\"legacy\"'']"
  have a: "\<not> truthy (?ls key_slot)" by (simp add: key_slot_def)
  have b: "generateKey ?ent = None" by simp
  have n: "''qr-codes'' \<noteq> key_slot" by (simp add: key_slot_def)
  have c: "\<not> truthy (?ls (encrypted_slot ''qr-codes''))" by (simp add: encrypted_slot_def)
  have l: "?ls ''qr-codes'' = Some (json_stringify demo_host ''legacy'')"
    by (simp add: demo_host_def)
  have e: "?ls(''qr-codes'' := None) = Map.empty" by simp
  note th = legacy_migration_loses_data[OF a b n c l demo_codec_ok, unfolded e]
  show ?thesis
    by (intro conjI) (rule th[THEN conjunct1], rule th[THEN conjunct2, THEN conjunct2, THEN spec])
qed

text \<open>
  The same loss where the platform works but the encrypted form of the legacy value
  exceeds the limit on arguments.
\<close>

lemma legacy_migration_too_large:
  assumes "platform_ok h" and "codec_ok h v" and "entropy_ok ent"
    and "getOrCreateKey h ent ls = (Some ck, lk)" and "too_large h ent v"
    and "key \<noteq> key_slot"
    and "\<not> truthy (ls (encrypted_slot key))"
    and "ls key = Some (json_stringify h v)"
  shows "getItem h ent key ls = (Some v, lk(key := None))"
    and "getItem h ent' key (lk(key := None)) = (None, lk(key := None))"
proof -
  have s: "setItem h ent key v ls = lk(key \<mapsto> json_stringify h v)"
    by (rule setItem_too_large[OF assms(1,3,4,5)])
  have sne: "json_stringify h v \<noteq> []" and jp: "json_parse h (json_stringify h v) = Some v"
    using assms(2) by (auto simp: codec_ok_def)
  show "getItem h ent key ls = (Some v, lk(key := None))"
    using assms(7,8) sne jp s by (simp add: getItem_def)
  have "lk (encrypted_slot key) = ls (encrypted_slot key)"
    using getOrCreateKey_again(3)[OF assms(1,3,4)] encrypted_slot_neq_key_slot[of key] by simp
  then have "\<not> truthy ((lk(key := None)) (encrypted_slot key))"
    using assms(7) encrypted_slot_neq[of key] by simp
  then show "getItem h ent' key (lk(key := None)) = (None, lk(key := None))"
    by (simp add: getItem_def)
qed

section \<open>Tiered record store\<close>

lemma map_of_assign: "map_of (assign k v l) k = Some v"
  by (induction l) auto

lemma on_connected_simps [simp]:
  "uses_remote (on_connected b w) = uses_remote w"
  "window_database (on_connected b w) = window_database w"
  "localStorage (on_connected b w) = localStorage w"
  "securityUtils_loaded (on_connected b w) = securityUtils_loaded w"
  by (simp_all add: on_connected_def uses_remote_def)

text \<open>
  The flag that the connectivity monitor sets is read by no operation: each does with
  the flag set to \<open>b\<close> what it does on the page as it was.
\<close>

lemma createQRCode_flag:
  "createQRCode h e1 e2 now st qrId txt name logo (on_connected b w) =
     map_sum id (map_prod id (on_connected b)) (createQRCode h e1 e2 now st qrId txt name logo w)"
  by (simp add: createQRCode_def Let_def split: option.splits prod.splits)
     (simp add: on_connected_def)

lemma getQRCode_flag:
  "getQRCode h e1 qrId (on_connected b w) =
     map_sum id (map_prod id (on_connected b)) (getQRCode h e1 qrId w)"
  by (simp add: getQRCode_def split: option.splits prod.splits)
     (simp add: on_connected_def)

lemma incrementScanCount_flag:
  "incrementScanCount h e1 e2 now st qrId (on_connected b w) =
     map_sum id (on_connected b) (incrementScanCount h e1 e2 now st qrId w)"
  by (simp add: incrementScanCount_def split: option.splits prod.splits member.splits)
     (simp add: on_connected_def)

lemma getRecentQRCodes_flag:
  "getRecentQRCodes h e1 (on_connected b w) = map_prod id (on_connected b) (getRecentQRCodes h e1 w)"
  by (simp add: getRecentQRCodes_def Let_def split: option.splits prod.splits)
     (simp add: on_connected_def)

text \<open>
  Claim C2, where the code departs from it. The connectivity monitor reports
  \<open>disconnected\<close>, so that \<open>FirebaseStatus.isAvailable()\<close> is false; the SDK is loaded
  and \<open>window.database\<close> is set to a database \<open>db\<close>, which is all that the
  operations test. Whatever \<open>db\<close> holds and whatever it answers, whatever the vault's
  platform and the clock, each of the four operations addresses \<open>db\<close>: its result is
  the database's answer, a record created or counted is in the database's children, and
  local storage, which is empty, is neither read nor written.
\<close>

theorem disconnected_uses_remote:
  "getStatus (disconnected_page\<lparr>window_database := Some db\<rparr>) = ''disconnected'' \<and>
   \<not> isAvailable (disconnected_page\<lparr>window_database := Some db\<rparr>) \<and>
   localStorage (disconnected_page\<lparr>window_database := Some db\<rparr>) = Map.empty \<and>
   createQRCode h e1 e2 now st qrId txt name logo (disconnected_page\<lparr>window_database := Some db\<rparr>) =
     (if denies_write db then Inl DatabaseError
      else Inr (qrId, disconnected_page\<lparr>window_database :=
        Some (db\<lparr>children :=
          assign qrId \<lparr>rec_id = qrId, rec_name = name, originalText = txt, logoPath = logo,
                        scanCount = 0, createdAt = st, lastScanned = None\<rparr> (children db)\<rparr>)\<rparr>)) \<and>
   getQRCode h e1 qrId (disconnected_page\<lparr>window_database := Some db\<rparr>) =
     (if denies_read db then Inl DatabaseError
      else Inr (map_of (children db) qrId, disconnected_page\<lparr>window_database := Some db\<rparr>)) \<and>
   incrementScanCount h e1 e2 now st qrId (disconnected_page\<lparr>window_database := Some db\<rparr>) =
     (if denies_write db then Inl DatabaseError
      else case map_of (children db) qrId of
             None \<Rightarrow> Inr (disconnected_page\<lparr>window_database := Some db\<rparr>)
           | Some d \<Rightarrow>
               Inr (disconnected_page\<lparr>window_database :=
                 Some (db\<lparr>children := assign qrId (scanned st d) (children db)\<rparr>)\<rparr>)) \<and>
   getRecentQRCodes h e1 (disconnected_page\<lparr>window_database := Some db\<rparr>) =
     (if denies_read db then []
      else rev (drop (length (children db) - 10) (sort_key createdAt (map snd (children db)))),
      disconnected_page\<lparr>window_database := Some db\<rparr>)"
proof -
  let ?w = "disconnected_page\<lparr>window_database := Some db\<rparr>"
  have u: "uses_remote ?w" and d: "window_database ?w = Some db"
    by (simp_all add: uses_remote_def disconnected_page_def)
  have s: "getStatus ?w = ''disconnected''" "\<not> isAvailable ?w" "localStorage ?w = Map.empty"
    by (simp_all add: getStatus_def isAvailable_def disconnected_page_def)
  have c: "createQRCode h e1 e2 now st qrId txt name logo ?w =
     (if denies_write db then Inl DatabaseError
      else Inr (qrId, disconnected_page\<lparr>window_database :=
        Some (db\<lparr>children :=
          assign qrId \<lparr>rec_id = qrId, rec_name = name, originalText = txt, logoPath = logo,
                        scanCount = 0, createdAt = st, lastScanned = None\<rparr> (children db)\<rparr>)\<rparr>))"
    using u d by (simp add: createQRCode_def)
  have g: "getQRCode h e1 qrId ?w =
     (if denies_read db then Inl DatabaseError else Inr (map_of (children db) qrId, ?w))"
    using u d by (simp add: getQRCode_def)
  have i: "incrementScanCount h e1 e2 now st qrId ?w =
     (if denies_write db then Inl DatabaseError
      else case map_of (children db) qrId of
             None \<Rightarrow> Inr ?w
           | Some d \<Rightarrow>
               Inr (disconnected_page\<lparr>window_database :=
                 Some (db\<lparr>children := assign qrId (scanned st d) (children db)\<rparr>)\<rparr>))"
    using u d by (simp add: incrementScanCount_def split: option.splits)
  have r: "getRecentQRCodes h e1 ?w =
     (if denies_read db then []
      else rev (drop (length (children db) - 10) (sort_key createdAt (map snd (children db)))), ?w)"
    using u d by (simp add: getRecentQRCodes_def Let_def)
  from s c g i r show ?thesis by simp
qed










text \<open>
  Left out of the claim as amended: an identifier that names an inherited member. The
  lookup then finds that member, the code sets the scan fields on it and writes the
  record map back, although the map holds no record for the identifier.
\<close>

lemma incrementScanCount_inherited_member:
  assumes "\<not> uses_remote w" and "securityUtils_loaded w"
    and "qrId \<in> set object_members"
    and "getItem h ent1 ''qr-codes'' (localStorage w) = (r, ls1)"
    and "map_of (or_empty r) qrId = None"
  shows "incrementScanCount h ent1 ent2 now st qrId w =
           Inr (w\<lparr>localStorage := setItem h ent2 ''qr-codes'' (or_empty r) ls1,
                 mutated_builtins := qrId # mutated_builtins w\<rparr>)"
  using assms by (simp add: incrementScanCount_def js_get_def)

section \<open>Redirect resolver\<close>



text \<open>The body of the second source's \<open>try\<close> block never throws.\<close>

lemma try_encrypted_returns: "\<exists>found. try_encrypted h e qrId w = Inr found"
  by (auto simp: try_encrypted_def split: option.splits prod.splits)

lemma try_local_eq:
  "try_local h e qrId w =
     (if securityUtils_loaded w then
        (case map_of (or_empty (fst (getItem h e ''qr-codes'' (localStorage w)))) qrId of
           None \<Rightarrow> (None, [Attempting encrypted_storage],
                     w\<lparr>localStorage := snd (getItem h e ''qr-codes'' (localStorage w))\<rparr>)
         | Some qrData \<Rightarrow>
             (Some (qrData, encrypted_storage),
              [Attempting encrypted_storage, DataFound encrypted_storage],
              w\<lparr>localStorage := snd (getItem h e ''qr-codes'' (localStorage w))\<rparr>))
      else (None, [Attempting encrypted_storage], w))"
  by (auto simp: try_local_def try_encrypted_def split: option.splits prod.splits)








text \<open>
  What holds of the resolution order. The console of a resolution never shows an attempt
  on the plain slot: the third source stands in the \<open>catch\<close> block of the second,
  whose body never throws.
\<close>

lemma resolve_console:
  "set (fst (snd (resolve h b e1 e2 qrId fb w))) \<subseteq>
     {Attempting firebase, DataFound firebase, Attempting encrypted_storage,
      DataFound encrypted_storage, Attempting url_fallback, DataFound url_fallback}"
proof -
  obtain r1 c1 w1 where t1: "try_firebase h e1 qrId w = (r1, c1, w1)"
    by (cases "try_firebase h e1 qrId w") auto
  obtain r2 c2 w2 where t2: "try_local h e2 qrId w1 = (r2, c2, w2)"
    by (cases "try_local h e2 qrId w1") auto
  obtain r3 c3 w3 where t3: "try_url b qrId fb w2 = (r3, c3, w3)"
    by (cases "try_url b qrId fb w2") auto
  have s1: "set c1 \<subseteq> {Attempting firebase, DataFound firebase}"
    using t1 by (auto simp: try_firebase_def split: sum.splits option.splits if_splits prod.splits)
  have s2: "set c2 \<subseteq> {Attempting encrypted_storage, DataFound encrypted_storage}"
    using t2 by (auto simp: try_local_eq split: option.splits if_splits)
  have s3: "set c3 \<subseteq> {Attempting url_fallback, DataFound url_fallback}"
    using t3 by (auto simp: try_url_def split: option.splits if_splits)
  have "fst (snd (resolve h b e1 e2 qrId fb w)) \<in> {c1, c1 @ c2, c1 @ c2 @ c3}"
    using t1 t2 t3 by (auto simp: resolve_def split: option.splits)
  with s1 s2 s3 show ?thesis by auto
qed

lemma legacy_never_attempted:
  "Attempting unencrypted_storage \<notin> set (fst (snd (resolve h b e1 e2 qrId fb w)))"
  using resolve_console[of h b e1 e2 qrId fb w] by auto

text \<open>A hit at the first source is returned, and nothing else is tried.\<close>

lemma resolve_firebase_hit:
  "try_firebase h e1 qrId w = (Some found, c1, w1) \<Longrightarrow>
   resolve h b e1 e2 qrId fb w = (Some found, c1, w1)"
  by (simp add: resolve_def)

text \<open>
  After a miss or a failure at the first source, a hit in the vault is returned, and
  neither the plain slot nor the link's payload is tried.
\<close>

lemma resolve_encrypted_hit:
  assumes "try_firebase h e1 qrId w = (None, c1, w1)" and "securityUtils_loaded w1"
    and "map_of (or_empty (fst (getItem h e2 ''qr-codes'' (localStorage w1)))) qrId = Some d"
  shows "resolve h b e1 e2 qrId fb w =
           (Some (d, encrypted_storage),
            c1 @ [Attempting encrypted_storage, DataFound encrypted_storage],
            w1\<lparr>localStorage := snd (getItem h e2 ''qr-codes'' (localStorage w1))\<rparr>)"
  using assms by (simp add: resolve_def try_local_eq)

text \<open>After misses at the first two sources the link's payload is tried.\<close>

lemma resolve_url:
  assumes "try_firebase h e1 qrId w = (None, c1, w1)"
    and "try_local h e2 qrId w1 = (None, c2, w2)"
  shows "resolve h b e1 e2 qrId fb w =
           (case try_url b qrId fb w2 of (r, c3, w3) \<Rightarrow> (r, c1 @ c2 @ c3, w3))"
  using assms by (simp add: resolve_def)

text \<open>A record rebuilt from the link's payload has a scan count of 0.\<close>

lemma url_fallback_scanCount:
  "try_url b qrId fb w = (Some (d, src), c, w') \<Longrightarrow> scanCount d = 0 \<and> src = url_fallback"
  by (auto simp: try_url_def split: option.splits if_splits)

lemma sample_bytes:
  "text_decode sample_host (text_encode sample_host s) = s"
  "atob_bytes sample_host (btoa_bytes sample_host bs) = Some bs"
  by (simp_all add: sample_host_def demo_host_def comp_def char_byte byte_char map_idI)

lemma sample_storage:
  "setItem sample_host sample_entropy ''qr-codes'' [(''xyz'', record_xyz)] Map.empty =
     [key_slot \<mapsto> btoa_bytes sample_host (replicate 32 7),
      encrypted_slot ''qr-codes'' \<mapsto>
        btoa_bytes sample_host (replicate 12 1 @ replicate 32 7 @ text_encode sample_host json_xyz)]"
proof -
  have j: "json_stringify sample_host [(''xyz'', record_xyz)] = json_xyz"
    by (simp add: sample_host_def)
  have k: "spread_btoa sample_host (replicate 32 7) =
      Some (btoa_bytes sample_host (replicate 32 7))"
    by (simp add: spread_btoa_def sample_host_def)
  have e: "encrypt sample_host (CryptoKey (replicate 32 7) True) (replicate 12 1)
      (text_encode sample_host json_xyz) = Some (replicate 32 7 @ text_encode sample_host json_xyz)"
    by (simp add: sample_host_def demo_host_def)
  have s: "spread_btoa sample_host
      (replicate 12 1 @ replicate 32 7 @ text_encode sample_host json_xyz) =
      Some (btoa_bytes sample_host
        (replicate 12 1 @ replicate 32 7 @ text_encode sample_host json_xyz))"
    by (simp add: spread_btoa_def sample_host_def demo_host_def json_xyz_def)
  show ?thesis
    by (simp add: setItem_def getOrCreateKey_def sample_entropy_def Let_def j k e s)
qed

lemma stale_read:
  "getItem sample_host e ''qr-codes'' (localStorage stale_page) =
     (Some [(''xyz'', record_xyz)], localStorage stale_page)"
proof -
  let ?ls = "localStorage stale_page"
  let ?K = "btoa_bytes sample_host (replicate 32 7)"
  let ?E = "btoa_bytes sample_host (replicate 12 1 @ replicate 32 7 @ text_encode sample_host json_xyz)"
  have ls: "?ls = [key_slot \<mapsto> ?K, encrypted_slot ''qr-codes'' \<mapsto> ?E, ''qr-codes'' \<mapsto> json_abc]"
    by (simp add: stale_page_def sample_storage)
  have k: "?ls key_slot = Some ?K"
    unfolding ls by (simp add: key_slot_def encrypted_slot_def)
  have e: "?ls (encrypted_slot ''qr-codes'') = Some ?E"
    unfolding ls by (simp add: encrypted_slot_def)
  have kne: "?K \<noteq> []" and ene: "?E \<noteq> []"
    by (simp_all add: sample_host_def demo_host_def)
  have g: "getOrCreateKey sample_host e ?ls = (Some (CryptoKey (replicate 32 7) False), ?ls)"
    using k kne by (simp add: getOrCreateKey_def sample_bytes importKey_def)
  have d: "decrypt sample_host (CryptoKey (replicate 32 7) False) (replicate 12 1)
             (replicate 32 7 @ text_encode sample_host json_xyz)
           = Some (text_encode sample_host json_xyz)"
    by (simp add: sample_host_def demo_host_def)
  have p: "json_parse sample_host json_xyz = Some [(''xyz'', record_xyz)]"
    by (simp add: sample_host_def json_xyz_def json_abc_def)
  show ?thesis
    using e ene g d p by (simp add: getItem_def sample_bytes)
qed

text \<open>
  Claim C1, at the input where the code departs from it. The remote database does not
  hold \<open>abc\<close>; the vault's encrypted slot holds only \<open>xyz\<close>; the plain \<open>qr-codes\<close>
  slot holds \<open>abc\<close>; the link carries no payload. The resolution tries the remote
  database and the vault and ends without a record, and \<open>init\<close> reports that the code
  was not found. The plain slot is not tried, although reading it would have found the
  record.
\<close>

theorem resolver_skips_plain_slot:
  "resolve sample_host sample_browser sample_entropy sample_entropy ''abc'' None stale_page =
     (None, [Attempting firebase, Attempting encrypted_storage], stale_page) \<and>
   fst (init sample_host sample_browser (\<lambda>n. sample_entropy) 5 5 (Some ''abc'') None stale_page) =
     [ShowError (not_found_message sample_browser)] \<and>
   try_unencrypted sample_host ''abc'' stale_page =
     (Some (record_abc, unencrypted_storage),
      [Attempting unencrypted_storage, DataFound unencrypted_storage], stale_page)"
proof -
  have f: "try_firebase sample_host sample_entropy ''abc'' stale_page =
      (None, [Attempting firebase], stale_page)"
    by (simp add: try_firebase_def getQRCode_def uses_remote_def stale_page_def)
  have l: "securityUtils_loaded stale_page" by (simp add: stale_page_def)
  have t: "try_local sample_host sample_entropy ''abc'' stale_page =
      (None, [Attempting encrypted_storage], stale_page)"
    using l by (simp add: try_local_eq stale_read or_empty_def)
  have r: "resolve sample_host sample_browser sample_entropy sample_entropy ''abc'' None stale_page =
     (None, [Attempting firebase, Attempting encrypted_storage], stale_page)"
    by (simp add: resolve_url[OF f t]) (simp add: try_url_def)
  have i: "fst (init sample_host sample_browser (\<lambda>n. sample_entropy) 5 5 (Some ''abc'') None
      stale_page) = [ShowError (not_found_message sample_browser)]"
    using r by (simp add: init_def)
  have pl: "localStorage stale_page ''qr-codes'' = Some json_abc"
    by (simp add: stale_page_def)
  have ne: "json_abc \<noteq> []" by (simp add: json_abc_def)
  have pa: "json_parse sample_host json_abc = Some [(''abc'', record_abc)]"
    by (simp add: sample_host_def)
  have u: "try_unencrypted sample_host ''abc'' stale_page =
     (Some (record_abc, unencrypted_storage),
      [Attempting unencrypted_storage, DataFound unencrypted_storage], stale_page)"
    using pl ne pa by (simp add: try_unencrypted_def)
  from r i u show ?thesis by simp
qed

end
